theory Spec2Isabelle
  imports Main "HOL-Library.Sublist"
begin

section \<open>JavaScript strings\<close>

text \<open>
  A JavaScript string is a sequence of UTF-16 code units. A code unit is a natural number
  here (a well-formed one is below 65536; no operation of the model does arithmetic on
  code units, so nothing wraps). \<open>js\<close> turns an ASCII literal into its code units.
\<close>

type_synonym jstring = "nat list"

definition js :: "string \<Rightarrow> jstring" where
  "js s = map of_char s"

text \<open>
  The white space of ECMAScript (\<open>WhiteSpace\<close> and \<open>LineTerminator\<close>): what
  \<open>String.prototype.trim\<close> removes and what \<open>\s\<close> matches.
\<close>

definition isWhiteSpace :: "nat \<Rightarrow> bool" where
  "isWhiteSpace c =
     (c \<in> set [0x9, 0xA, 0xB, 0xC, 0xD, 0x20, 0xA0, 0x1680, 0x2028, 0x2029, 0x202F, 0x205F,
                0x3000, 0xFEFF]
      \<or> (0x2000 \<le> c \<and> c \<le> 0x200A))"

definition trim :: "jstring \<Rightarrow> jstring" where
  "trim s = rev (dropWhile isWhiteSpace (rev (dropWhile isWhiteSpace s)))"

definition startsWith :: "jstring \<Rightarrow> jstring \<Rightarrow> bool" where
  "startsWith s p = (take (length p) s = p)"

definition endsWith :: "jstring \<Rightarrow> jstring \<Rightarrow> bool" where
  "endsWith s p = (length p \<le> length s \<and> drop (length s - length p) s = p)"

text \<open>\<open>s.slice(lo, hi)\<close>: a negative index counts from the end, and both are clamped.\<close>

definition slice :: "jstring \<Rightarrow> int \<Rightarrow> int \<Rightarrow> jstring" where
  "slice s lo hi =
     (let len = int (length s);
          a = (if lo < 0 then max (len + lo) 0 else min lo len);
          b = (if hi < 0 then max (len + hi) 0 else min hi len)
      in take (nat (b - a)) (drop (nat a) s))"

text \<open>
  \<open>parts.join(sep)\<close>, and \<open>s.split(k)\<close> for a separator \<open>k\<close> that is not empty: the pieces
  of \<open>s\<close> between the occurrences of \<open>k\<close>, found from the left, each search starting where
  the last occurrence ended.
\<close>

fun joinWith :: "jstring \<Rightarrow> jstring list \<Rightarrow> jstring" where
  "joinWith sep [] = []"
| "joinWith sep [x] = x"
| "joinWith sep (x # y # zs) = x @ sep @ joinWith sep (y # zs)"

function splitOn :: "jstring \<Rightarrow> jstring \<Rightarrow> jstring list" where
  "splitOn k [] = [[]]"
| "splitOn k (c # cs) =
     (if k \<noteq> [] \<and> startsWith (c # cs) k
      then [] # splitOn k (drop (length k) (c # cs))
      else (case splitOn k cs of [] \<Rightarrow> [[c]] | piece # pieces \<Rightarrow> (c # piece) # pieces))"
  by pat_completeness auto
termination
  by (relation "measure (\<lambda>(k, s). length s)") auto

section \<open>The identifier normalizer\<close>

text \<open>The labels of the device-info columns, as UTF-16 code units.\<close>

definition label_deviceId :: jstring where
  \<comment> \<open>U+8BBE U+5907 U+7F16 U+53F7, the device number\<close>
  "label_deviceId = [0x8BBE, 0x5907, 0x7F16, 0x53F7]"

definition label_deviceName :: jstring where
  \<comment> \<open>U+8BBE U+5907 U+540D U+79F0, the device name\<close>
  "label_deviceName = [0x8BBE, 0x5907, 0x540D, 0x79F0]"

definition label_model :: jstring where
  \<comment> \<open>U+578B U+53F7, the model\<close>
  "label_model = [0x578B, 0x53F7]"

definition label_manufacturer :: jstring where
  \<comment> \<open>U+5382 U+5BB6, the manufacturer\<close>
  "label_manufacturer = [0x5382, 0x5BB6]"

text \<open>
  \<open>processData\<close> cleans a key with \<^verbatim>\<open>k.trim().replace(/^\$%|%\$$/g, '')\<close>.
  The global replace walks the string from the left; at each index it tries the first
  alternative (\<open>$%\<close>, at index 0 only), then the second (\<open>%$\<close>, only where the string ends
  just after it), and removes what matched. The flag says whether the walk is at index 0.
  Code unit 0x24 is \<open>$\<close>, 0x25 is \<open>%\<close>.
\<close>

fun strip_marks :: "bool \<Rightarrow> jstring \<Rightarrow> jstring" where
  "strip_marks at_start (a # b # cs) =
     (if at_start \<and> a = 0x24 \<and> b = 0x25 then strip_marks False cs
      else if a = 0x25 \<and> b = 0x24 \<and> cs = [] then []
      else a # strip_marks False (b # cs))"
| "strip_marks at_start cs = cs"

definition processData_clean :: "jstring \<Rightarrow> jstring" where
  "processData_clean k = strip_marks True (trim k)"

text \<open>The predicate of \<open>Object.keys(data).find\<close> in \<open>processData\<close>.\<close>

definition isDeviceIdKey :: "jstring \<Rightarrow> bool" where
  "isDeviceIdKey k = (processData_clean k = label_deviceId)"

text \<open>
  \<open>handleMerge\<close> cleans a key before it hands the mapping to the rendering engine:
  \<^verbatim>\<open>let cleanKey = key.trim();
  if (cleanKey.startsWith('$%') && cleanKey.endsWith('%$')) cleanKey = cleanKey.slice(2, -2);\<close>
\<close>

definition cleanKey :: "jstring \<Rightarrow> jstring" where
  "cleanKey key =
     (let c = trim key
      in if startsWith c (js ''$%'') \<and> endsWith c (js ''%$'') then slice c 2 (- 2) else c)"

section \<open>Case conversion and the category list\<close>

text \<open>
  \<open>toUpperCase\<close> and \<open>toLowerCase\<close> follow the Unicode case conversion. On a string of
  ASCII code units that is the conversion of the letters a to z and A to Z; what the
  Unicode tables do to any other string is the parameter \<open>unicode_upper\<close>
  (\<open>unicode_lower\<close>), about which nothing is assumed.
\<close>

definition isAscii :: "jstring \<Rightarrow> bool" where
  "isAscii s = list_all (\<lambda>c. c < 0x80) s"

definition ascii_upper :: "nat \<Rightarrow> nat" where
  "ascii_upper c = (if 0x61 \<le> c \<and> c \<le> 0x7A then c - 0x20 else c)"

definition ascii_lower :: "nat \<Rightarrow> nat" where
  "ascii_lower c = (if 0x41 \<le> c \<and> c \<le> 0x5A then c + 0x20 else c)"

definition toUpperCase :: "(jstring \<Rightarrow> jstring) \<Rightarrow> jstring \<Rightarrow> jstring" where
  "toUpperCase unicode_upper s = (if isAscii s then map ascii_upper s else unicode_upper s)"

definition toLowerCase :: "(jstring \<Rightarrow> jstring) \<Rightarrow> jstring \<Rightarrow> jstring" where
  "toLowerCase unicode_lower s = (if isAscii s then map ascii_lower s else unicode_lower s)"

text \<open>
  \<open>handleAddCategory\<close> of \<open>App.tsx\<close>: the new list of custom categories.
  \<^verbatim>\<open>const trimmedName = name.trim();
  if (!customCategories.includes(trimmedName) && trimmedName.toUpperCase() !== 'IMAGES' &&
      trimmedName.toUpperCase() !== 'DOCUMENTS' && trimmedName.toUpperCase() !== 'DEVICE TYPE')
    setCustomCategories([...customCategories, trimmedName]);\<close>
\<close>

definition handleAddCategory ::
  "(jstring \<Rightarrow> jstring) \<Rightarrow> jstring list \<Rightarrow> jstring \<Rightarrow> jstring list" where
  "handleAddCategory uu customCategories name =
     (let trimmedName = trim name
      in if trimmedName \<notin> set customCategories
            \<and> toUpperCase uu trimmedName \<noteq> js ''IMAGES''
            \<and> toUpperCase uu trimmedName \<noteq> js ''DOCUMENTS''
            \<and> toUpperCase uu trimmedName \<noteq> js ''DEVICE TYPE''
         then customCategories @ [trimmedName]
         else customCategories)"

text \<open>
  In the words of the specification, two labels are equal under case-insensitive
  comparison when their upper-case forms are equal. Every label that
  \<open>handleAddCategory\<close> adds is trimmed (\<open>all_trimmed\<close>); a list read from the browser's
  storage need not be.
\<close>

definition equalsIgnoreCase :: "(jstring \<Rightarrow> jstring) \<Rightarrow> jstring \<Rightarrow> jstring \<Rightarrow> bool" where
  "equalsIgnoreCase uu a b = (toUpperCase uu a = toUpperCase uu b)"

definition all_trimmed :: "jstring list \<Rightarrow> bool" where
  "all_trimmed cs = list_all (\<lambda>c. trim c = c) cs"

section \<open>JavaScript objects used as string-keyed records\<close>

text \<open>
  A \<open>Record<string, V>\<close> built by assignment is a list of its own properties in
  insertion order. Assigning to an existing key keeps its place; assigning to
  \<open>__proto__\<close> on an object literal creates no own property. \<open>Object.keys\<close> and
  \<open>Object.entries\<close> list the array-index keys first (canonical decimal numerals up to
  4294967294, in ascending numeric order), then the other keys in insertion order.
\<close>

type_synonym 'v jsobj = "(jstring \<times> 'v) list"

definition isDigit :: "nat \<Rightarrow> bool" where
  "isDigit c = (0x30 \<le> c \<and> c \<le> 0x39)"

definition digitsValue :: "jstring \<Rightarrow> nat" where
  "digitsValue k = foldl (\<lambda>n c. 10 * n + (c - 0x30)) 0 k"

definition isArrayIndex :: "jstring \<Rightarrow> bool" where
  "isArrayIndex k =
     (k \<noteq> [] \<and> list_all isDigit k \<and> (hd k \<noteq> 0x30 \<or> length k = 1)
      \<and> digitsValue k < 4294967295)"

fun obj_update :: "jstring \<Rightarrow> 'v \<Rightarrow> 'v jsobj \<Rightarrow> 'v jsobj" where
  "obj_update k v [] = [(k, v)]"
| "obj_update k v ((k', v') # ob) =
     (if k' = k then (k, v) # ob else (k', v') # obj_update k v ob)"

definition obj_set :: "jstring \<Rightarrow> 'v \<Rightarrow> 'v jsobj \<Rightarrow> 'v jsobj" where
  "obj_set k v ob = (if k = js ''__proto__'' then ob else obj_update k v ob)"

definition obj_entries :: "'v jsobj \<Rightarrow> (jstring \<times> 'v) list" where
  "obj_entries ob =
     sort_key (\<lambda>e. digitsValue (fst e)) (filter (\<lambda>e. isArrayIndex (fst e)) ob)
     @ filter (\<lambda>e. \<not> isArrayIndex (fst e)) ob"

definition obj_keys :: "'v jsobj \<Rightarrow> jstring list" where
  "obj_keys ob = map fst (obj_entries ob)"

definition obj_get :: "'v jsobj \<Rightarrow> jstring \<Rightarrow> 'v option" where
  "obj_get ob k = map_of ob k"

section \<open>Placeholder substitution\<close>

text \<open>
  An identifier pair (\<open>KeyValuePair\<close>); its \<open>status\<close> is absent (\<open>Unset\<close>),
  \<open>'replaced'\<close> or \<open>'not-found'\<close>.
\<close>

datatype pair_status = Unset | Replaced | NotFound

record keyValuePair =
  p_id :: jstring
  p_key :: jstring
  p_value :: jstring
  p_status :: pair_status

text \<open>\<open>s.includes(k)\<close>: \<open>k\<close> starts at some index of \<open>s\<close>.\<close>

fun includes_js :: "jstring \<Rightarrow> jstring \<Rightarrow> bool" where
  "includes_js [] k = (k = [])"
| "includes_js (c # cs) k = (startsWith (c # cs) k \<or> includes_js cs k)"

text \<open>
  The plain-text variant builds a global pattern from the key with every regular
  expression metacharacter escaped: the pattern matches the key literally, code unit by
  code unit, and has no capture group. \<open>newContent.match(regex)\<close> lists the matches
  from the left, each search starting where the last match ended (\<open>countMatches\<close> is
  their number), and \<open>newContent.replace(regex, p.value)\<close> replaces each of them
  (\<open>replaceAll\<close>, which carries the text before the current index). The source reaches
  both only with a key that is not empty.

  The second argument of \<open>replace\<close> is a replacement template (\<open>GetSubstitution\<close>):
  in it \<open>$$\<close> stands for \<open>$\<close>, \<open>$&\<close> for the matched text, \<open>$\<close> and a backquote for
  the text before the match and \<open>$'\<close> for the text after it; with no capture group every
  other \<open>$\<close> stands for itself. Code unit 0x24 is \<open>$\<close>, 0x26 is \<open>&\<close>, 0x60 the
  backquote, 0x27 the quote.
\<close>

fun expand :: "jstring \<Rightarrow> jstring \<Rightarrow> jstring \<Rightarrow> jstring \<Rightarrow> jstring" where
  "expand (a # b # cs) matched pre post =
     (if a = 0x24 \<and> b = 0x24 then 0x24 # expand cs matched pre post
      else if a = 0x24 \<and> b = 0x26 then matched @ expand cs matched pre post
      else if a = 0x24 \<and> b = 0x60 then pre @ expand cs matched pre post
      else if a = 0x24 \<and> b = 0x27 then post @ expand cs matched pre post
      else a # expand (b # cs) matched pre post)"
| "expand cs matched pre post = cs"

function replaceAll :: "jstring \<Rightarrow> jstring \<Rightarrow> jstring \<Rightarrow> jstring \<Rightarrow> jstring" where
  "replaceAll k v pre [] = []"
| "replaceAll k v pre (c # cs) =
     (if k \<noteq> [] \<and> startsWith (c # cs) k
      then expand v k pre (drop (length k) (c # cs))
           @ replaceAll k v (pre @ k) (drop (length k) (c # cs))
      else c # replaceAll k v (pre @ [c]) cs)"
  by pat_completeness auto
termination
  by (relation "measure (\<lambda>(k, v, pre, s). length s)") auto

function countMatches :: "jstring \<Rightarrow> jstring \<Rightarrow> nat" where
  "countMatches k [] = 0"
| "countMatches k (c # cs) =
     (if k \<noteq> [] \<and> startsWith (c # cs) k
      then Suc (countMatches k (drop (length k) (c # cs)))
      else countMatches k cs)"
  by pat_completeness auto
termination
  by (relation "measure (\<lambda>(k, s). length s)") auto

text \<open>
  The callback of \<open>keyValuePairs.map\<close> in the plain-text variant of \<open>handleMerge\<close>. It
  reads and writes the two variables \<open>newContent\<close> and \<open>replacementCount\<close> of the enclosing
  scope, which are the state here.
  \<^verbatim>\<open>let isReplaced = false;
  if (p.key && newContent.includes(p.key)) {
    const regex = ...; const matches = newContent.match(regex);
    if (matches) { replacementCount += matches.length; isReplaced = true;
                   newContent = newContent.replace(regex, p.value); } }
  return { ...p, status: isReplaced ? 'replaced' : 'not-found' };\<close>
\<close>

definition mergePair ::
  "keyValuePair \<Rightarrow> jstring \<times> nat \<Rightarrow> keyValuePair \<times> jstring \<times> nat" where
  "mergePair p st =
     (let newContent = fst st; replacementCount = snd st
      in if p_key p \<noteq> [] \<and> includes_js newContent (p_key p) then
           (let matches = countMatches (p_key p) newContent
            in if 0 < matches
               then (p\<lparr>p_status := Replaced\<rparr>,
                     replaceAll (p_key p) (p_value p) [] newContent,
                     replacementCount + matches)
               else (p\<lparr>p_status := NotFound\<rparr>, newContent, replacementCount))
         else (p\<lparr>p_status := NotFound\<rparr>, newContent, replacementCount))"

fun mergePairs ::
  "keyValuePair list \<Rightarrow> jstring \<times> nat \<Rightarrow> keyValuePair list \<times> jstring \<times> nat" where
  "mergePairs [] st = ([], st)"
| "mergePairs (p # ps) st =
     (case mergePair p st of (p', st') \<Rightarrow>
        (case mergePairs ps st' of (ps', st'') \<Rightarrow> (p' # ps', st'')))"

text \<open>
  The output name, \<^verbatim>\<open>fileData.name.replace(/(\.[\w\d]+)$/, '_merged$1')\<close>: the first index
  at which a dot is followed by one or more word characters (\<open>A-Z\<close>, \<open>a-z\<close>, \<open>0-9\<close>, \<open>_\<close>)
  that reach the end of the name; \<open>_merged\<close> is put before that dot. A name with no such
  index is returned as it is. Code unit 0x2E is the dot.
\<close>

definition isWordChar :: "nat \<Rightarrow> bool" where
  "isWordChar c =
     ((0x30 \<le> c \<and> c \<le> 0x39) \<or> (0x41 \<le> c \<and> c \<le> 0x5A) \<or> c = 0x5F
      \<or> (0x61 \<le> c \<and> c \<le> 0x7A))"

fun outputName :: "jstring \<Rightarrow> jstring" where
  "outputName [] = []"
| "outputName (c # cs) =
     (if c = 0x2E \<and> cs \<noteq> [] \<and> list_all isWordChar cs then js ''_merged'' @ c # cs
      else c # outputName cs)"

text \<open>
  The output name in the words of the specification: \<open>_merged\<close> goes immediately
  before the final extension (the last dot and what follows it), and at the end of a name
  with no extension.
\<close>

definition insertBeforeExtension :: "jstring \<Rightarrow> jstring" where
  "insertBeforeExtension name =
     (if 0x2E \<in> set name
      then (let ext = rev (takeWhile (\<lambda>c. c \<noteq> 0x2E) (rev name));
                stem = take (length name - length ext - 1) name
            in stem @ js ''_merged'' @ 0x2E # ext)
      else name @ js ''_merged'')"

section \<open>The merge session and the substitution run\<close>

text \<open>
  An exception is a value: \<open>LibrariesNotLoaded\<close> is the error \<open>handleMerge\<close> throws
  itself, \<open>Failure\<close> any exception of a collaborator (blob decoding, the storage, the
  spreadsheet and word-processor readers, the template renderer).
\<close>

datatype error = LibrariesNotLoaded | Failure

datatype console_entry = ConsoleWarn jstring error | ConsoleError jstring error

datatype mergeStatus = Idle | Processing | Success | Error

text \<open>
  The output document is a \<open>File\<close>: its parts (the rendered container of type \<open>'o\<close>, or
  the substituted text), its name, its mime type and \<open>Date.now()\<close>. The constructor
  \<open>new File(parts, name, {type})\<close> stores the type in ASCII lower case, and stores the
  empty string when the type holds a code unit outside U+0020 to U+007E
  (\<open>normalizeType\<close>).
\<close>

datatype 'o blob_parts = Rendered 'o | TextParts jstring

record 'o resultFile =
  rf_parts :: "'o blob_parts"
  rf_name :: jstring
  rf_type :: jstring
  rf_lastModified :: nat

definition normalizeType :: "jstring \<Rightarrow> jstring" where
  "normalizeType t =
     (if list_all (\<lambda>c. 0x20 \<le> c \<and> c \<le> 0x7E) t then map ascii_lower t else [])"

text \<open>
  The state of one detail view that the merge workflow reads and writes, and the console.
\<close>

record 'o session =
  keyValuePairs :: "keyValuePair list"
  mergeStatus :: mergeStatus
  mergeMessage :: jstring
  resultFile :: "'o resultFile option"
  console :: "console_entry list"

text \<open>
  The target document (\<open>fileData\<close>): its name, its mime type, and what
  \<open>content.arrayBuffer()\<close> and \<open>content.text()\<close> give (a buffer of type \<open>'b\<close>, the decoded
  text, or an exception).
\<close>

record 'b fileData =
  fd_name :: jstring
  fd_type :: jstring
  fd_arrayBuffer :: "error + 'b"
  fd_text :: "error + jstring"

text \<open>
  The collaborators of \<open>handleMerge\<close>: whether \<open>PizZip\<close> and \<open>docxtemplater\<close> are loaded,
  \<open>mammoth.extractRawText\<close> (absent when \<open>mammoth\<close> is not loaded), the rendering of a
  template buffer with a mapping under the delimiters \<open>$%\<close> and \<open>%$\<close> (\<open>new PizZip\<close>,
  \<open>new docxtemplater\<close>, \<open>render\<close>, \<open>generate\<close>), the Unicode lower-casing, and the clock.
\<close>

record ('b, 'o) merge_env =
  PizZip_loaded :: bool
  docxtemplater_loaded :: bool
  mammoth_extractRawText :: "('b \<Rightarrow> error + jstring) option"
  docx_render :: "'b \<Rightarrow> jstring jsobj \<Rightarrow> error + 'o"
  unicode_lower :: "jstring \<Rightarrow> jstring"
  now :: nat

text \<open>The decimal numeral of a number, as a template literal prints it.\<close>

fun showNat :: "nat \<Rightarrow> jstring" where
  "showNat n = (if n < 10 then [0x30 + n] else showNat (n div 10) @ [0x30 + n mod 10])"

declare showNat.simps [simp del]

definition docx_mime :: jstring where
  "docx_mime = js ''application/vnd.openxmlformats-officedocument.wordprocessingml.document''"

text \<open>
  The advisory presence check of the structured variant:
  \<^verbatim>\<open>let cleanKey = p.key.trim(); let searchKey = cleanKey;
  if (!searchKey.startsWith('$%')) searchKey = '$%' + searchKey;
  if (!searchKey.endsWith('%$')) searchKey = searchKey + '%$';
  return { ...p, status: textContent.includes(searchKey) ? 'replaced' : 'not-found' };\<close>
\<close>

definition searchKey :: "jstring \<Rightarrow> jstring" where
  "searchKey key =
     (let cleanKey = trim key;
          s1 = (if \<not> startsWith cleanKey (js ''$%'') then js ''$%'' @ cleanKey else cleanKey)
      in if \<not> endsWith s1 (js ''%$'') then s1 @ js ''%$'' else s1)"

definition checkPair :: "jstring \<Rightarrow> keyValuePair \<Rightarrow> keyValuePair" where
  "checkPair textContent p =
     p\<lparr>p_status :=
         (if includes_js textContent (searchKey (p_key p)) then Replaced else NotFound)\<rparr>"

text \<open>The mapping handed to the renderer: \<open>data[cleanKey] = value\<close> for each pair in turn.\<close>

definition renderData :: "keyValuePair list \<Rightarrow> jstring jsobj" where
  "renderData pairs = foldl (\<lambda>data p. obj_set (cleanKey (p_key p)) (p_value p) data) [] pairs"

text \<open>
  The two branches of the \<open>try\<close> block of \<open>handleMerge\<close>. Each returns the exception
  that left the block, if any, and the session as the \<open>set...\<close> calls made before have
  left it. \<open>pairs\<close> is the \<open>keyValuePairs\<close> the handler was created with: the block goes
  on reading it after \<open>setKeyValuePairs\<close>.
\<close>

definition mergeDocx ::
  "('b, 'o) merge_env \<Rightarrow> 'b fileData \<Rightarrow> keyValuePair list \<Rightarrow> 'o session
   \<Rightarrow> error option \<times> 'o session" where
  "mergeDocx env fileData pairs s =
     (if \<not> (PizZip_loaded env \<and> docxtemplater_loaded env) then (Some LibrariesNotLoaded, s)
      else case fd_arrayBuffer fileData of
        Inl e \<Rightarrow> (Some e, s)
      | Inr arrayBuffer \<Rightarrow>
         (let s1 =
            (case mammoth_extractRawText env of
               None \<Rightarrow> s
             | Some extractRawText \<Rightarrow>
                (case extractRawText arrayBuffer of
                   Inl e \<Rightarrow>
                     s\<lparr>console := console s
                          @ [ConsoleWarn (js ''Could not check identifier existence in docx'') e]\<rparr>
                 | Inr textContent \<Rightarrow> s\<lparr>keyValuePairs := map (checkPair textContent) pairs\<rparr>))
          in case docx_render env arrayBuffer (renderData pairs) of
               Inl e \<Rightarrow> (Some e, s1)
             | Inr out \<Rightarrow>
                (None,
                 s1\<lparr>resultFile :=
                      Some \<lparr>rf_parts = Rendered out, rf_name = outputName (fd_name fileData),
                            rf_type = normalizeType docx_mime, rf_lastModified = now env\<rparr>,
                    mergeStatus := Success,
                    mergeMessage := js ''Processed successfully! Ready to download.''\<rparr>)))"

definition mergeText ::
  "('b, 'o) merge_env \<Rightarrow> 'b fileData \<Rightarrow> keyValuePair list \<Rightarrow> 'o session
   \<Rightarrow> error option \<times> 'o session" where
  "mergeText env fileData pairs s =
     (case fd_text fileData of
        Inl e \<Rightarrow> (Some e, s)
      | Inr content \<Rightarrow>
         (case mergePairs pairs (content, 0) of
            (updatedPairs, newContent, replacementCount) \<Rightarrow>
              (None,
               s\<lparr>keyValuePairs := updatedPairs,
                 resultFile :=
                   Some \<lparr>rf_parts = TextParts newContent, rf_name = outputName (fd_name fileData),
                         rf_type = normalizeType (fd_type fileData), rf_lastModified = now env\<rparr>,
                 mergeStatus := Success,
                 mergeMessage :=
                   js ''Success! Replaced '' @ showNat replacementCount @ js '' instances.''\<rparr>)))"

text \<open>
  The structured variant is taken when
  \<^verbatim>\<open>fileData.name.toLowerCase().endsWith('.docx') || fileData.type === '...wordprocessingml.document'\<close>.
\<close>

definition isDocx :: "('b, 'o) merge_env \<Rightarrow> 'b fileData \<Rightarrow> bool" where
  "isDocx env fileData =
     (endsWith (toLowerCase (unicode_lower env) (fd_name fileData)) (js ''.docx'')
      \<or> fd_type fileData = docx_mime)"

definition mergeAttempt ::
  "('b, 'o) merge_env \<Rightarrow> 'b fileData \<Rightarrow> keyValuePair list \<Rightarrow> 'o session
   \<Rightarrow> error option \<times> 'o session" where
  "mergeAttempt env fileData pairs s =
     (if isDocx env fileData then mergeDocx env fileData pairs s
      else mergeText env fileData pairs s)"

text \<open>
  \<open>handleMerge\<close>: nothing happens without a target document or without pairs; otherwise
  the status becomes \<open>processing\<close>, the result is cleared, the \<open>try\<close> block runs, and an
  exception that leaves it is logged and turned into the \<open>error\<close> status with a fixed
  message.
\<close>

definition handleMerge ::
  "('b, 'o) merge_env \<Rightarrow> 'b fileData option \<Rightarrow> 'o session \<Rightarrow> 'o session" where
  "handleMerge env fileData s =
     (case fileData of
        None \<Rightarrow> s
      | Some fd \<Rightarrow>
         if keyValuePairs s = [] then s
         else
           (case mergeAttempt env fd (keyValuePairs s)
                   (s\<lparr>mergeStatus := Processing, resultFile := None\<rparr>) of
              (None, s') \<Rightarrow> s'
            | (Some err, s') \<Rightarrow>
                s'\<lparr>console := console s' @ [ConsoleError [] err],
                   mergeStatus := Error,
                   mergeMessage := js ''Failed to process file. Ensure identifiers match.''\<rparr>))"

text \<open>
  A run of \<open>handleMerge\<close> fails when it starts (there is a target document and at least
  one pair) and an exception leaves its \<open>try\<close> block; it succeeds when it starts and none
  does.
\<close>

definition mergeOutcome ::
  "('b, 'o) merge_env \<Rightarrow> 'b fileData \<Rightarrow> 'o session \<Rightarrow> error option" where
  "mergeOutcome env fd s =
     fst (mergeAttempt env fd (keyValuePairs s) (s\<lparr>mergeStatus := Processing, resultFile := None\<rparr>))"

section \<open>What substitution of a literal key means\<close>

text \<open>
  The plain-text variant in the words of the specification. A key occurs in a text when
  the text is some prefix, then the key, then some suffix (\<open>sublist\<close>). Replacing every
  occurrence reads the text as pieces with the key between them, \<open>joinWith key pieces\<close>,
  and puts the value between the same pieces. The occurrences are those found from the
  left without overlap: no piece before an occurrence contains the key, even when
  followed by all but the last code unit of that occurrence, and the last piece does not
  contain the key.
\<close>

definition occurrencesSplit :: "jstring \<Rightarrow> jstring \<Rightarrow> jstring list \<Rightarrow> bool" where
  "occurrencesSplit k t pieces =
     (pieces \<noteq> [] \<and> joinWith k pieces = t
      \<and> list_all (\<lambda>piece. \<not> sublist k (piece @ butlast k)) (butlast pieces)
      \<and> \<not> sublist k (last pieces))"

text \<open>
  A replacement value is plain when it holds none of the patterns \<open>$$\<close>, \<open>$&\<close>, \<open>$\<close>
  with a backquote and \<open>$'\<close>.
\<close>

fun plainTemplate :: "jstring \<Rightarrow> bool" where
  "plainTemplate (a # b # cs) =
     (\<not> (a = 0x24 \<and> (b = 0x24 \<or> b = 0x26 \<or> b = 0x60 \<or> b = 0x27)) \<and> plainTemplate (b # cs))"
| "plainTemplate cs = True"

section \<open>The format parsers\<close>

text \<open>
  The line-oriented fallback of the text parser (the \<open>catch\<close> block that runs when
  \<open>JSON.parse\<close> throws). \<open>text.split('\n')\<close> is \<open>splitOn\<close> with the separator 0x0A.

  The pattern \<^verbatim>\<open>/^([^:=,]+)[:=,\t]+(.*)$/\<close> on the trimmed line, as the backtracking
  search it denotes: group 1 takes the longest run of code units other than \<open>:\<close>, \<open>=\<close>
  and \<open>,\<close> and gives them back one by one until the rest matches; the rest matches when
  it starts with a run of \<open>:\<close>, \<open>=\<close>, \<open>,\<close> and tab (taken whole) and what follows the
  run holds no line terminator, which the dot does not match; group 2 is what follows
  the run.
\<close>

definition isKeyChar :: "nat \<Rightarrow> bool" where
  "isKeyChar c = (c \<noteq> 0x3A \<and> c \<noteq> 0x3D \<and> c \<noteq> 0x2C)"

definition isDelimiter :: "nat \<Rightarrow> bool" where
  "isDelimiter c = (c = 0x3A \<or> c = 0x3D \<or> c = 0x2C \<or> c = 0x9)"

definition isLineTerminator :: "nat \<Rightarrow> bool" where
  "isLineTerminator c = (c = 0xA \<or> c = 0xD \<or> c = 0x2028 \<or> c = 0x2029)"

definition matchRest :: "jstring \<Rightarrow> nat \<Rightarrow> (jstring \<times> jstring) option" where
  "matchRest s n =
     (let rest = drop n s
      in if takeWhile isDelimiter rest \<noteq> []
            \<and> list_all (\<lambda>c. \<not> isLineTerminator c) (dropWhile isDelimiter rest)
         then Some (take n s, dropWhile isDelimiter rest)
         else None)"

fun matchFrom :: "jstring \<Rightarrow> nat \<Rightarrow> (jstring \<times> jstring) option" where
  "matchFrom s 0 = None"
| "matchFrom s (Suc n) =
     (case matchRest s (Suc n) of Some groups \<Rightarrow> Some groups | None \<Rightarrow> matchFrom s n)"

definition matchKeyValue :: "jstring \<Rightarrow> (jstring \<times> jstring) option" where
  "matchKeyValue s = matchFrom s (length (takeWhile isKeyChar s))"

text \<open>\<open>s.split(/\s+/)\<close>: the parts of \<open>s\<close> between its runs of white space.\<close>

function splitWhiteSpace :: "jstring \<Rightarrow> jstring list" where
  "splitWhiteSpace [] = [[]]"
| "splitWhiteSpace (c # cs) =
     (if isWhiteSpace c then [] # splitWhiteSpace (dropWhile isWhiteSpace cs)
      else (case splitWhiteSpace cs of [] \<Rightarrow> [[c]] | part # parts \<Rightarrow> (c # part) # parts))"
  by pat_completeness auto
termination
  by (relation "measure length") (auto simp: length_dropWhile_le less_Suc_eq_le)

text \<open>
  The callback of \<open>lines.forEach\<close>:
  \<^verbatim>\<open>const trimmed = line.trim(); if (!trimmed) return;
  const match = trimmed.match(...);
  if (match) { data[match[1].trim()] = match[2].trim(); }
  else { const parts = trimmed.split(/\s+/);
         if (parts.length >= 2) data[parts[0]] = parts.slice(1).join(' ');
         else data[trimmed] = ""; }\<close>
\<close>

definition parseLine :: "jstring jsobj \<Rightarrow> jstring \<Rightarrow> jstring jsobj" where
  "parseLine data line =
     (let trimmed = trim line
      in if trimmed = [] then data
         else case matchKeyValue trimmed of
                Some (g1, g2) \<Rightarrow> obj_set (trim g1) (trim g2) data
              | None \<Rightarrow>
                 (case splitWhiteSpace trimmed of
                    part0 # part1 # parts \<Rightarrow> obj_set part0 (joinWith [0x20] (part1 # parts)) data
                  | _ \<Rightarrow> obj_set trimmed [] data))"

definition parseLines :: "jstring \<Rightarrow> jstring jsobj" where
  "parseLines text = foldl parseLine [] (splitOn [0xA] text)"

text \<open>
  A line in the words of the specification: everything up to the first \<open>:\<close>, \<open>=\<close>
  or \<open>,\<close> is the key, and the trimmed remainder after that delimiter is the value.
\<close>

definition splitAtFirstDelimiter :: "jstring \<Rightarrow> jstring \<times> jstring" where
  "splitAtFirstDelimiter line =
     (takeWhile isKeyChar line, trim (drop 1 (dropWhile isKeyChar line)))"

text \<open>
  A value of a spreadsheet cell or of a mapping: \<open>undefined\<close>, \<open>null\<close>, a string, a
  number or a boolean. A number is carried as what the code observes of it: the text
  that \<open>String\<close> gives it and whether it is truthy (it is not 0 and not \<open>NaN\<close>); how a
  double is printed is not modelled. \<open>toStr\<close> is \<open>String(v)\<close>, \<open>truthy\<close> what \<open>||\<close>
  and \<open>if\<close> test.
\<close>

datatype cell = Undefined | Null | Str jstring | Num jstring bool | Bool bool

fun toStr :: "cell \<Rightarrow> jstring" where
  "toStr Undefined = js ''undefined''"
| "toStr Null = js ''null''"
| "toStr (Str s) = s"
| "toStr (Num printed nonzero) = printed"
| "toStr (Bool b) = (if b then js ''true'' else js ''false'')"

fun truthy :: "cell \<Rightarrow> bool" where
  "truthy Undefined = False"
| "truthy Null = False"
| "truthy (Str s) = (s \<noteq> [])"
| "truthy (Num printed nonzero) = nonzero"
| "truthy (Bool b) = b"

text \<open>
  The spreadsheet parser reads the first sheet as rows of cells
  (\<open>sheet_to_json(worksheet, {header: 1})\<close>); a missing cell is \<open>Undefined\<close>.
  \<^verbatim>\<open>jsonData.forEach((row) => {
    if (row.length >= 1 && row[0] != null)
      mapping[String(row[0]).trim()] = String(row[1] || '').trim(); });\<close>
\<close>

definition cellAt :: "cell list \<Rightarrow> nat \<Rightarrow> cell" where
  "cellAt row i = (if i < length row then row ! i else Undefined)"

definition parseSheetRow :: "jstring jsobj \<Rightarrow> cell list \<Rightarrow> jstring jsobj" where
  "parseSheetRow mapping row =
     (if 1 \<le> length row \<and> cellAt row 0 \<noteq> Undefined \<and> cellAt row 0 \<noteq> Null
      then obj_set (trim (toStr (cellAt row 0)))
             (trim (toStr (if truthy (cellAt row 1) then cellAt row 1 else Str []))) mapping
      else mapping)"

definition parseSheet :: "cell list list \<Rightarrow> jstring jsobj" where
  "parseSheet jsonData = foldl parseSheetRow [] jsonData"

text \<open>
  The table loop of the word-processor parser, over every \<open>tr\<close> of the document; a row is
  the text contents of its \<open>td\<close> cells. The state is the mapping and \<open>foundPairs\<close>.
  \<^verbatim>\<open>const cells = row.querySelectorAll('td');
  if (cells.length >= 1) {
    const key = cells[0].textContent?.trim();
    const value = cells[1]?.textContent?.trim() || "";
    if (key) { mapping[key] = value; foundPairs = true; } }\<close>
  (When no row gives a pair the parser goes on to the paragraphs; that part is not
  modelled.)
\<close>

definition parseWordRow :: "jstring jsobj \<times> bool \<Rightarrow> jstring list \<Rightarrow> jstring jsobj \<times> bool" where
  "parseWordRow st cells =
     (case cells of
        [] \<Rightarrow> st
      | c0 # rest \<Rightarrow>
         (let key = trim c0;
              v = (case rest of [] \<Rightarrow> [] | c1 # _ \<Rightarrow> trim c1)
          in if key \<noteq> [] then (obj_set key v (fst st), True) else st))"

definition parseWordRows :: "jstring list list \<Rightarrow> jstring jsobj \<times> bool" where
  "parseWordRows rows = foldl parseWordRow ([], False) rows"

text \<open>
  A line is delimited when its trimmed text starts with a code unit other than \<open>:\<close>,
  \<open>=\<close> and \<open>,\<close>, holds one of these three, and holds no line terminator after the run
  of \<open>:\<close>, \<open>=\<close>, \<open>,\<close> and tab that starts at the first of them. Its key is the trimmed
  text before that run and its value the trimmed text after it.
\<close>

definition delimitedLine :: "jstring \<Rightarrow> bool" where
  "delimitedLine line =
     (takeWhile isKeyChar (trim line) \<noteq> [] \<and> dropWhile isKeyChar (trim line) \<noteq> []
      \<and> list_all (\<lambda>c. \<not> isLineTerminator c)
            (dropWhile isDelimiter (dropWhile isKeyChar (trim line))))"

definition lineKey :: "jstring \<Rightarrow> jstring" where
  "lineKey line = trim (takeWhile isKeyChar (trim line))"

definition lineValue :: "jstring \<Rightarrow> jstring" where
  "lineValue line = trim (dropWhile isDelimiter (dropWhile isKeyChar (trim line)))"

section \<open>The enrichment lookup\<close>

text \<open>
  What \<open>searchDeviceInStorage\<close> returns: each field is the cell found, or \<open>undefined\<close>.
\<close>

record deviceDetails =
  deviceName :: cell
  model :: cell
  manufacturer :: cell

text \<open>
  The spreadsheet handler reads the first sheet as row objects keyed by the header texts
  (\<open>sheet_to_json(sheet)\<close>). \<open>findKey\<close> is \<open>rowKeys.find(k => k.trim() === label)\<close>, and
  \<open>rowValue\<close> is \<open>key ? row[key] : undefined\<close> (a key found is never the empty string).
\<close>

definition findKey :: "jstring \<Rightarrow> cell jsobj \<Rightarrow> jstring option" where
  "findKey label row = find (\<lambda>k. trim k = label) (obj_keys row)"

definition rowValue :: "cell jsobj \<Rightarrow> jstring option \<Rightarrow> cell" where
  "rowValue row key =
     (case key of
        None \<Rightarrow> Undefined
      | Some k \<Rightarrow> (case obj_get row k of None \<Rightarrow> Undefined | Some v \<Rightarrow> v))"

fun findInSheet :: "jstring \<Rightarrow> cell jsobj list \<Rightarrow> deviceDetails option" where
  "findInSheet deviceId [] = None"
| "findInSheet deviceId (row # rows) =
     (if findKey label_deviceId row \<noteq> None
         \<and> trim (toStr (rowValue row (findKey label_deviceId row))) = trim deviceId
      then Some \<lparr>deviceName = rowValue row (findKey label_deviceName row),
                 model = rowValue row (findKey label_model row),
                 manufacturer = rowValue row (findKey label_manufacturer row)\<rparr>
      else findInSheet deviceId rows)"

text \<open>
  The word-processor handler reads the tables of the converted document. A table is the
  list of its rows, a row the list of its \<open>td\<close> and \<open>th\<close> cells with their text contents.
  The header is the trimmed text of every cell of the first row; the data rows are read
  through their \<open>td\<close> cells only. \<open>indexOf\<close> gives the first index, or nothing for -1.
\<close>

datatype td = Td jstring | Th jstring

fun cellText :: "td \<Rightarrow> jstring" where
  "cellText (Td t) = t"
| "cellText (Th t) = t"

fun isTd :: "td \<Rightarrow> bool" where
  "isTd (Td t) = True"
| "isTd (Th t) = False"

fun indexOf :: "'a list \<Rightarrow> 'a \<Rightarrow> nat option" where
  "indexOf [] x = None"
| "indexOf (y # ys) x = (if y = x then Some 0 else map_option Suc (indexOf ys x))"

definition tdText :: "jstring list \<Rightarrow> nat option \<Rightarrow> cell" where
  "tdText cells idx =
     (case idx of
        None \<Rightarrow> Undefined
      | Some i \<Rightarrow> if i < length cells then Str (trim (cells ! i)) else Undefined)"

fun findInRows :: "jstring \<Rightarrow> jstring list \<Rightarrow> nat \<Rightarrow> td list list \<Rightarrow> deviceDetails option" where
  "findInRows deviceId headerCells idIndex [] = None"
| "findInRows deviceId headerCells idIndex (row # rows) =
     (let cells = map cellText (filter isTd row)
      in if idIndex < length cells \<and> trim (cells ! idIndex) = trim deviceId
         then Some \<lparr>deviceName = tdText cells (indexOf headerCells label_deviceName),
                    model = tdText cells (indexOf headerCells label_model),
                    manufacturer = tdText cells (indexOf headerCells label_manufacturer)\<rparr>
         else findInRows deviceId headerCells idIndex rows)"

fun findInTables :: "jstring \<Rightarrow> td list list list \<Rightarrow> deviceDetails option" where
  "findInTables deviceId [] = None"
| "findInTables deviceId (table # tables) =
     (case table of
        header # row1 # rows \<Rightarrow>
          (case indexOf (map (\<lambda>c. trim (cellText c)) header) label_deviceId of
             None \<Rightarrow> findInTables deviceId tables
           | Some idIndex \<Rightarrow>
              (case findInRows deviceId (map (\<lambda>c. trim (cellText c)) header) idIndex (row1 # rows) of
                 Some details \<Rightarrow> Some details
               | None \<Rightarrow> findInTables deviceId tables))
      | _ \<Rightarrow> findInTables deviceId tables)"

text \<open>
  The storage and the readers as \<open>searchDeviceInStorage\<close> meets them. A stored file has
  its name and what the readers make of its content: the rows of the first sheet
  (\<open>arrayBuffer\<close>, \<open>XLSX.read\<close>, \<open>sheet_to_json\<close>) and the tables of the converted document
  (\<open>arrayBuffer\<close>, \<open>mammoth.convertToHtml\<close>, \<open>DOMParser\<close>), each of which may throw.
\<close>

record fileMeta =
  fm_id :: jstring
  fm_isDeviceInfo :: bool

record storedFile =
  sf_name :: jstring
  sf_sheet :: "error + cell jsobj list"
  sf_tables :: "error + td list list list"

record storage_env =
  getAllMetadata :: "error + fileMeta list"
  getFile :: "jstring \<Rightarrow> error + storedFile option"
  XLSX_loaded :: bool
  mammoth_loaded :: bool
  lower_case :: "jstring \<Rightarrow> jstring"

text \<open>
  The body of the loop \<open>for (const fileMeta of deviceFiles)\<close>: an exception (\<open>Inl\<close>), a
  match that ends the search (\<open>Some\<close>), or nothing, upon which the loop goes on.
\<close>

definition scanFile :: "storage_env \<Rightarrow> jstring \<Rightarrow> fileMeta \<Rightarrow> error + deviceDetails option" where
  "scanFile env deviceId fm =
     (case getFile env (fm_id fm) of
        Inl e \<Rightarrow> Inl e
      | Inr None \<Rightarrow> Inr None
      | Inr (Some file) \<Rightarrow>
         (let fname = toLowerCase (lower_case env) (sf_name file)
          in if endsWith fname (js ''.xlsx'') \<or> endsWith fname (js ''.xls'') then
               (if XLSX_loaded env
                then (case sf_sheet file of
                        Inl e \<Rightarrow> Inl e
                      | Inr rows \<Rightarrow> Inr (findInSheet deviceId rows))
                else Inr None)
             else if endsWith fname (js ''.docx'') \<or> endsWith fname (js ''.doc'') then
               (if mammoth_loaded env
                then (case sf_tables file of
                        Inl e \<Rightarrow> Inl e
                      | Inr tables \<Rightarrow> Inr (findInTables deviceId tables))
                else Inr None)
             else Inr None))"

fun scanFiles :: "storage_env \<Rightarrow> jstring \<Rightarrow> fileMeta list \<Rightarrow> error + deviceDetails option" where
  "scanFiles env deviceId [] = Inr None"
| "scanFiles env deviceId (fm # fms) =
     (case scanFile env deviceId fm of
        Inl e \<Rightarrow> Inl e
      | Inr (Some details) \<Rightarrow> Inr (Some details)
      | Inr None \<Rightarrow> scanFiles env deviceId fms)"

text \<open>
  \<open>searchDeviceInStorage\<close>: one \<open>try\<close> around the listing and the whole loop; its
  \<open>catch\<close> logs a warning, and then \<open>null\<close> is returned. The result is what was logged
  and what was returned.
\<close>

definition searchDeviceInStorage ::
  "storage_env \<Rightarrow> jstring \<Rightarrow> console_entry list \<times> deviceDetails option" where
  "searchDeviceInStorage env deviceId =
     (case getAllMetadata env of
        Inl e \<Rightarrow> ([ConsoleWarn (js ''Error searching device info'') e], None)
      | Inr allFiles \<Rightarrow>
         (case scanFiles env deviceId (filter fm_isDeviceInfo allFiles) of
            Inl e \<Rightarrow> ([ConsoleWarn (js ''Error searching device info'') e], None)
          | Inr found \<Rightarrow> ([], found)))"

text \<open>The decorated keys under which \<open>processData\<close> writes the details.\<close>

definition key_deviceName :: jstring where
  "key_deviceName = js ''$%'' @ label_deviceName @ js ''%$''"

definition key_model :: jstring where
  "key_model = js ''$%'' @ label_model @ js ''%$''"

definition key_manufacturer :: jstring where
  "key_manufacturer = js ''$%'' @ label_manufacturer @ js ''%$''"

definition enrich :: "deviceDetails \<Rightarrow> cell jsobj \<Rightarrow> cell jsobj" where
  "enrich details data =
     (let d1 = (if truthy (deviceName details)
                then obj_set key_deviceName (deviceName details) data else data);
          d2 = (if truthy (model details) then obj_set key_model (model details) d1 else d1)
      in if truthy (manufacturer details)
         then obj_set key_manufacturer (manufacturer details) d2 else d2)"

text \<open>
  \<open>Object.entries(data).map(([key, value]) => ({id: crypto.randomUUID(), key,
  value: String(value)}))\<close>; \<open>uuid i\<close> is the identifier drawn for the entry at index \<open>i\<close>.
\<close>

definition toPairs :: "(nat \<Rightarrow> jstring) \<Rightarrow> cell jsobj \<Rightarrow> keyValuePair list" where
  "toPairs uuid data =
     map (\<lambda>(i, (k, v)). \<lparr>p_id = uuid i, p_key = k, p_value = toStr v, p_status = Unset\<rparr>)
       (enumerate 0 (obj_entries data))"

text \<open>
  \<open>processData\<close>: find the device number key, look the device up when its value is not
  empty, write the details found into the mapping, and load the pairs. The message set
  while the lookup runs is overwritten before the function returns. The lookup catches
  its own exceptions, so the \<open>catch\<close> around the call is never entered.
\<close>

definition deviceIdOf :: "jstring jsobj \<Rightarrow> jstring" where
  "deviceIdOf data =
     (case find isDeviceIdKey (obj_keys data) of
        None \<Rightarrow> []
      | Some k \<Rightarrow> (case obj_get data k of None \<Rightarrow> [] | Some v \<Rightarrow> v))"

definition processData ::
  "storage_env \<Rightarrow> (nat \<Rightarrow> jstring) \<Rightarrow> jstring jsobj \<Rightarrow> 'o session \<Rightarrow> 'o session" where
  "processData env uuid data s =
     (let deviceId = deviceIdOf data;
          data0 = map (\<lambda>(k, v). (k, Str v)) data;
          looked = (if deviceId \<noteq> [] then searchDeviceInStorage env deviceId else ([], None));
          data1 = (case snd looked of None \<Rightarrow> data0 | Some details \<Rightarrow> enrich details data0);
          pairs = toPairs uuid data1;
          s1 = s\<lparr>console := console s @ fst looked\<rparr>
      in if pairs \<noteq> []
         then s1\<lparr>keyValuePairs := pairs, mergeStatus := Idle,
                 mergeMessage := js ''Loaded '' @ showNat (length pairs) @ js '' identifiers.''\<rparr>
         else s1\<lparr>keyValuePairs := [], mergeStatus := Error,
                 mergeMessage := js ''No identifiers found.''\<rparr>)"

section \<open>What matching a row of a device sheet means\<close>



section \<open>Example inputs\<close>

text \<open>
  One identifier pair, a session holding it, two plain-text targets and a word-processor
  template, and two sets of collaborators: all libraries loaded, the raw text of the
  template being \<open>Dear $%NAME%$\<close>; in the first the renderer returns a container, in the
  second it throws.
\<close>

definition example_pairs :: "keyValuePair list" where
  "example_pairs = [\<lparr>p_id = js ''id-1'', p_key = js ''NAME'', p_value = js ''Bob'', p_status = Unset\<rparr>]"

definition example_session :: "unit session" where
  "example_session =
     \<lparr>keyValuePairs = example_pairs, mergeStatus = Idle,
      mergeMessage = js ''Loaded 1 identifiers.'', resultFile = None, console = []\<rparr>"

definition example_env :: "(unit, unit) merge_env" where
  "example_env =
     \<lparr>PizZip_loaded = True, docxtemplater_loaded = True,
      mammoth_extractRawText = Some (\<lambda>buffer. Inr (js ''Dear $%NAME%$'')),
      docx_render = (\<lambda>buffer data. Inr ()),
      unicode_lower = (\<lambda>s. s), now = 0\<rparr>"

definition failing_render_env :: "(unit, unit) merge_env" where
  "failing_render_env = example_env\<lparr>docx_render := (\<lambda>buffer data. Inl Failure)\<rparr>"

definition readme_file :: "unit fileData" where
  "readme_file =
     \<lparr>fd_name = js ''README'', fd_type = js ''text/plain'', fd_arrayBuffer = Inr (),
      fd_text = Inr (js ''Hello NAME, welcome'')\<rparr>"

definition notes_file :: "unit fileData" where
  "notes_file = readme_file\<lparr>fd_name := js ''notes.v2.txt''\<rparr>"

definition undecodable_file :: "unit fileData" where
  "undecodable_file = notes_file\<lparr>fd_text := Inl Failure\<rparr>"

definition letter_file :: "unit fileData" where
  "letter_file =
     \<lparr>fd_name = js ''letter.docx'', fd_type = docx_mime, fd_arrayBuffer = Inr (),
      fd_text = Inl Failure\<rparr>"

text \<open>A pair as a parser emits it, with no status yet.\<close>

definition pair :: "string \<Rightarrow> string \<Rightarrow> string \<Rightarrow> keyValuePair" where
  "pair i k v = \<lparr>p_id = js i, p_key = js k, p_value = js v, p_status = Unset\<rparr>"

text \<open>
  Example inputs of the enrichment lookup: the row object made of the header row and the
  data row of the device-info spreadsheet, that spreadsheet as a stored file, a spreadsheet
  that cannot be read, a mapping with the decorated device number key, and two stores that
  hold both files as device-info documents, in either order.
\<close>

definition device_row :: "cell jsobj" where
  "device_row =
     [(label_deviceId, Str (js ''D100'')), (label_deviceName, Str (js ''Sensor'')),
      (label_model, Str (js ''M1'')), (label_manufacturer, Str (js ''ACME''))]"

definition devices_file :: storedFile where
  "devices_file = \<lparr>sf_name = js ''devices.xlsx'', sf_sheet = Inr [device_row], sf_tables = Inl Failure\<rparr>"

definition broken_file :: storedFile where
  "broken_file = \<lparr>sf_name = js ''broken.xlsx'', sf_sheet = Inl Failure, sf_tables = Inl Failure\<rparr>"


definition meta_devices :: fileMeta where
  "meta_devices = \<lparr>fm_id = js ''file-devices'', fm_isDeviceInfo = True\<rparr>"

definition meta_broken :: fileMeta where
  "meta_broken = \<lparr>fm_id = js ''file-broken'', fm_isDeviceInfo = True\<rparr>"

definition example_getFile :: "jstring \<Rightarrow> error + storedFile option" where
  "example_getFile i =
     (if i = js ''file-devices'' then Inr (Some devices_file)
      else if i = js ''file-broken'' then Inr (Some broken_file)
      else Inr None)"

definition broken_first_storage :: storage_env where
  "broken_first_storage =
     \<lparr>getAllMetadata = Inr [meta_broken, meta_devices], getFile = example_getFile,
      XLSX_loaded = True, mammoth_loaded = True, lower_case = (\<lambda>s. s)\<rparr>"

definition devices_first_storage :: storage_env where
  "devices_first_storage = broken_first_storage\<lparr>getAllMetadata := Inr [meta_devices, meta_broken]\<rparr>"

definition example_details :: deviceDetails where
  "example_details =
     \<lparr>deviceName = Str (js ''Sensor''), model = Str (js ''M1''), manufacturer = Str (js ''ACME'')\<rparr>"











section \<open>Properties of the identifier normalizer\<close>

text \<open>
  Claim C1. The normalizer strips the \<open>$%\<close> ... \<open>%$\<close> decoration only when both sides are
  present, at both places where it is applied. The key emission of \<open>handleMerge\<close> does so;
  the key match of \<open>processData\<close> does not: its pattern removes either side on its own, so
  the unbalanced \<open>$%Foo\<close> becomes \<open>Foo\<close>, and an unbalanced decoration of the device
  number label is taken for the device number key. The balanced and the undecorated key
  are cleaned the same way at both places.
\<close>

theorem C1_unbalanced_key_stripped_in_processData:
  "processData_clean (js ''$%Foo'') = js ''Foo''
   \<and> cleanKey (js ''$%Foo'') = js ''$%Foo''
   \<and> processData_clean (js ''Foo%$'') = js ''Foo''
   \<and> cleanKey (js ''Foo%$'') = js ''Foo%$''
   \<and> processData_clean (js ''$%Foo%$'') = js ''Foo''
   \<and> cleanKey (js ''$%Foo%$'') = js ''Foo''
   \<and> processData_clean (js ''Foo'') = js ''Foo''
   \<and> cleanKey (js ''Foo'') = js ''Foo''
   \<and> isDeviceIdKey (js ''$%'' @ label_deviceId)"
  by (simp add: processData_clean_def cleanKey_def trim_def js_def startsWith_def endsWith_def
      slice_def isDeviceIdKey_def label_deviceId_def isWhiteSpace_def)

section \<open>Properties of trimming\<close>

lemma dropWhile_rev_prefix: "\<exists>ws. ys = rev (dropWhile P (rev ys)) @ ws"
proof -
  have "rev ys = takeWhile P (rev ys) @ dropWhile P (rev ys)" by simp
  then have "ys = rev (dropWhile P (rev ys)) @ rev (takeWhile P (rev ys))"
    by (metis rev_append rev_rev_ident)
  then show ?thesis ..
qed

lemma trim_ends: "trim s = [] \<or> (\<not> isWhiteSpace (hd (trim s)) \<and> \<not> isWhiteSpace (last (trim s)))"
proof (cases "trim s = []")
  case True then show ?thesis by simp
next
  case False
  define ys where "ys = dropWhile isWhiteSpace s"
  define zs where "zs = rev (dropWhile isWhiteSpace (rev ys))"
  have z: "trim s = zs" by (simp add: trim_def zs_def ys_def)
  obtain ws where ws: "ys = zs @ ws" unfolding zs_def using dropWhile_rev_prefix by blast
  from False z have nz: "zs \<noteq> []" by simp
  then have "ys \<noteq> []" using ws by simp
  then have "\<not> isWhiteSpace (hd ys)" unfolding ys_def by (rule hd_dropWhile)
  moreover have "hd ys = hd zs" using ws nz by simp
  ultimately have h: "\<not> isWhiteSpace (hd zs)" by simp
  from nz have "dropWhile isWhiteSpace (rev ys) \<noteq> []" by (simp add: zs_def)
  then have "\<not> isWhiteSpace (hd (dropWhile isWhiteSpace (rev ys)))" by (rule hd_dropWhile)
  then have "\<not> isWhiteSpace (last zs)" by (simp add: zs_def last_rev)
  with h z show ?thesis by simp
qed

lemma trim_fixed:
  assumes "s = [] \<or> (\<not> isWhiteSpace (hd s) \<and> \<not> isWhiteSpace (last s))"
  shows "trim s = s"
proof -
  have d: "dropWhile isWhiteSpace s = s"
    using assms by (auto simp: dropWhile_eq_self_iff)
  have "rev s = [] \<or> \<not> isWhiteSpace (hd (rev s))"
    using assms by (auto simp: hd_rev)
  then have "dropWhile isWhiteSpace (rev s) = rev s"
    by (simp add: dropWhile_eq_self_iff)
  with d show ?thesis by (simp add: trim_def)
qed

lemma trim_idem: "trim (trim s) = trim s"
  using trim_ends [of s] by (rule trim_fixed)

lemma toUpperCase_reserved:
  "toUpperCase uu (js ''IMAGES'') = js ''IMAGES''"
  "toUpperCase uu (js ''DOCUMENTS'') = js ''DOCUMENTS''"
  "toUpperCase uu (js ''DEVICE TYPE'') = js ''DEVICE TYPE''"
  by (simp_all add: toUpperCase_def isAscii_def js_def ascii_upper_def)

lemma handleAddCategory_all_trimmed:
  "all_trimmed cs \<Longrightarrow> all_trimmed (handleAddCategory uu cs name)"
  by (simp add: handleAddCategory_def all_trimmed_def Let_def trim_idem)

section \<open>Properties of the category list\<close>

lemma handleAddCategory_present_in_trimmed_list:
  assumes "all_trimmed cats" and "name \<in> set cats"
  shows "handleAddCategory uu cats name = cats"
proof -
  from assms have "trim name \<in> set cats" by (auto simp: all_trimmed_def list_all_iff)
  then show ?thesis by (simp add: handleAddCategory_def Let_def)
qed

text \<open>
  Claim C9, as amended. Adding a label whose trimmed text equals \<open>IMAGES\<close>, \<open>DOCUMENTS\<close>
  or \<open>DEVICE TYPE\<close> under case-insensitive comparison leaves the category list unchanged,
  and so does adding a label whose trimmed text is already in the list.
\<close>

theorem C9_reserved_or_trimmed_present_rejected:
  assumes "equalsIgnoreCase uu (trim name) (js ''IMAGES'')
           \<or> equalsIgnoreCase uu (trim name) (js ''DOCUMENTS'')
           \<or> equalsIgnoreCase uu (trim name) (js ''DEVICE TYPE'')
           \<or> trim name \<in> set cats"
  shows "handleAddCategory uu cats name = cats"
  using assms
  by (auto simp: handleAddCategory_def equalsIgnoreCase_def toUpperCase_reserved Let_def)

text \<open>A reserved label in mixed case with spaces around it, and a label already in the list.\<close>

theorem C9_reserved_or_trimmed_present_rejected_witness:
  "handleAddCategory (\<lambda>s. s) [js ''Pumps''] (js ''  Device Type '') = [js ''Pumps'']
   \<and> handleAddCategory (\<lambda>s. s) [js ''Pumps''] (js '' Pumps '') = [js ''Pumps'']"
proof -
  have a: "equalsIgnoreCase (\<lambda>s. s) (trim (js ''  Device Type '')) (js ''IMAGES'')
           \<or> equalsIgnoreCase (\<lambda>s. s) (trim (js ''  Device Type '')) (js ''DOCUMENTS'')
           \<or> equalsIgnoreCase (\<lambda>s. s) (trim (js ''  Device Type '')) (js ''DEVICE TYPE'')
           \<or> trim (js ''  Device Type '') \<in> set [js ''Pumps'']"
    by (simp add: equalsIgnoreCase_def toUpperCase_def isAscii_def ascii_upper_def trim_def
        js_def isWhiteSpace_def)
  have b: "equalsIgnoreCase (\<lambda>s. s) (trim (js '' Pumps '')) (js ''IMAGES'')
           \<or> equalsIgnoreCase (\<lambda>s. s) (trim (js '' Pumps '')) (js ''DOCUMENTS'')
           \<or> equalsIgnoreCase (\<lambda>s. s) (trim (js '' Pumps '')) (js ''DEVICE TYPE'')
           \<or> trim (js '' Pumps '') \<in> set [js ''Pumps'']"
    by (simp add: trim_def js_def isWhiteSpace_def)
  show ?thesis
    using C9_reserved_or_trimmed_present_rejected [OF a]
      C9_reserved_or_trimmed_present_rejected [OF b]
    by simp
qed

text \<open>
  Claim C9 as stated, for any input already present in the list, fails for a list that
  holds a label with spaces around it (the list is read from the browser's storage as it
  is): the input \<open>" Pumps "\<close> is in the list, and its trimmed text is added.
\<close>

theorem C9_counterexample_untrimmed_entry:
  "js '' Pumps '' \<in> set [js '' Pumps '']
   \<and> handleAddCategory (\<lambda>s. s) [js '' Pumps ''] (js '' Pumps '')
       = [js '' Pumps '', js ''Pumps'']"
  by (simp add: handleAddCategory_def toUpperCase_def isAscii_def ascii_upper_def trim_def
      js_def isWhiteSpace_def)

section \<open>Properties of the substitution run\<close>

lemma not_isWordChar_dot [simp]: "\<not> isWordChar 0x2E"
  by (simp add: isWordChar_def)

lemma outputName_extension:
  "ext \<noteq> [] \<Longrightarrow> list_all isWordChar ext \<Longrightarrow>
   outputName (stem @ 0x2E # ext) = stem @ js ''_merged'' @ 0x2E # ext"
  by (induction stem) simp_all

lemma outputName_no_extension:
  "\<not> (\<exists>stem ext. name = stem @ 0x2E # ext \<and> ext \<noteq> [] \<and> list_all isWordChar ext) \<Longrightarrow>
   outputName name = name"
proof (induction name)
  case Nil
  then show ?case by simp
next
  case (Cons c cs)
  have tail: "\<not> (\<exists>stem ext. cs = stem @ 0x2E # ext \<and> ext \<noteq> [] \<and> list_all isWordChar ext)"
  proof
    assume "\<exists>stem ext. cs = stem @ 0x2E # ext \<and> ext \<noteq> [] \<and> list_all isWordChar ext"
    then obtain stem ext where "cs = stem @ 0x2E # ext" "ext \<noteq> []" "list_all isWordChar ext"
      by blast
    then have "c # cs = (c # stem) @ 0x2E # ext \<and> ext \<noteq> [] \<and> list_all isWordChar ext"
      by simp
    with Cons.prems show False by blast
  qed
  have here: "\<not> (c = 0x2E \<and> cs \<noteq> [] \<and> list_all isWordChar cs)"
  proof
    assume "c = 0x2E \<and> cs \<noteq> [] \<and> list_all isWordChar cs"
    then have "c # cs = [] @ 0x2E # cs \<and> cs \<noteq> [] \<and> list_all isWordChar cs" by simp
    with Cons.prems show False by blast
  qed
  from here Cons.IH [OF tail] show ?case by auto
qed

lemma mergeText_cases:
  "mergeText env fd pairs s =
     (case fd_text fd of
        Inl e \<Rightarrow> (Some e, s)
      | Inr content \<Rightarrow>
          (None,
           s\<lparr>keyValuePairs := fst (mergePairs pairs (content, 0)),
             resultFile :=
               Some \<lparr>rf_parts = TextParts (fst (snd (mergePairs pairs (content, 0)))),
                     rf_name = outputName (fd_name fd),
                     rf_type = normalizeType (fd_type fd), rf_lastModified = now env\<rparr>,
             mergeStatus := Success,
             mergeMessage :=
               js ''Success! Replaced '' @ showNat (snd (snd (mergePairs pairs (content, 0))))
               @ js '' instances.''\<rparr>))"
  by (simp add: mergeText_def split: sum.split prod.split)

lemma mergeText_success_file:
  assumes "mergeText env fd pairs s = (None, s')"
  shows "\<exists>rf. resultFile s' = Some rf \<and> rf_name rf = outputName (fd_name fd)
           \<and> rf_type rf = normalizeType (fd_type fd) \<and> mergeStatus s' = Success"
proof (cases "fd_text fd")
  case (Inl e)
  with assms show ?thesis by (simp add: mergeText_cases)
next
  case (Inr content)
  with assms show ?thesis by (auto simp add: mergeText_cases)
qed

lemma mergeText_failure:
  assumes "mergeText env fd pairs s = (Some err, s')"
  shows "s' = s \<and> fd_text fd = Inl err"
proof (cases "fd_text fd")
  case (Inl e)
  with assms show ?thesis by (simp add: mergeText_cases)
next
  case (Inr content)
  with assms show ?thesis by (simp add: mergeText_cases)
qed

lemma normalizeType_docx_mime: "normalizeType docx_mime = docx_mime"
  by (simp add: normalizeType_def docx_mime_def js_def ascii_lower_def)

lemma normalizeType_idem: "normalizeType (normalizeType t) = normalizeType t"
  by (auto simp: normalizeType_def ascii_lower_def list_all_iff)

lemma normalizeType_examples:
  "normalizeType (js ''Text/Plain'') = js ''text/plain''"
  "normalizeType (js ''text/'' @ [0xE9]) = []"
  by (simp_all add: normalizeType_def js_def ascii_lower_def)

lemma mergeDocx_success_file:
  assumes "mergeDocx env fd pairs s = (None, s')"
  shows "\<exists>rf. resultFile s' = Some rf \<and> rf_name rf = outputName (fd_name fd)
           \<and> rf_type rf = docx_mime \<and> mergeStatus s' = Success"
proof (cases "fd_arrayBuffer fd")
  case (Inl e)
  with assms show ?thesis by (simp add: mergeDocx_def split: if_splits)
next
  case (Inr buf)
  show ?thesis
  proof (cases "docx_render env buf (renderData pairs)")
    case (Inl e)
    with Inr assms show ?thesis by (simp add: mergeDocx_def Let_def split: if_splits)
  next
    case r: (Inr out)
    with Inr assms show ?thesis
      by (auto simp add: mergeDocx_def Let_def normalizeType_docx_mime split: if_splits)
  qed
qed

lemma mergeDocx_failure:
  assumes "mergeDocx env fd pairs s = (Some err, s')"
  shows "(s' = s \<and> (\<not> (PizZip_loaded env \<and> docxtemplater_loaded env)
                     \<or> (\<exists>e. fd_arrayBuffer fd = Inl e) \<or> mammoth_extractRawText env = None))
         \<or> (\<exists>buf ex e. PizZip_loaded env \<and> docxtemplater_loaded env
               \<and> fd_arrayBuffer fd = Inr buf \<and> mammoth_extractRawText env = Some ex
               \<and> ex buf = Inl e
               \<and> s' = s\<lparr>console := console s
                    @ [ConsoleWarn (js ''Could not check identifier existence in docx'') e]\<rparr>)
         \<or> (\<exists>buf ex textContent. PizZip_loaded env \<and> docxtemplater_loaded env
               \<and> fd_arrayBuffer fd = Inr buf \<and> mammoth_extractRawText env = Some ex
               \<and> ex buf = Inr textContent
               \<and> docx_render env buf (renderData pairs) = Inl err
               \<and> s' = s\<lparr>keyValuePairs := map (checkPair textContent) pairs\<rparr>)"
proof (cases "PizZip_loaded env \<and> docxtemplater_loaded env")
  case False
  with assms show ?thesis by (simp add: mergeDocx_def split: if_splits)
next
  case libs: True
  show ?thesis
  proof (cases "fd_arrayBuffer fd")
    case (Inl e)
    with libs assms show ?thesis by (simp add: mergeDocx_def)
  next
    case (Inr buf)
    show ?thesis
    proof (cases "docx_render env buf (renderData pairs)")
      case r: (Inr out)
      with Inr libs assms show ?thesis by (simp add: mergeDocx_def Let_def)
    next
      case r: (Inl e)
      show ?thesis
      proof (cases "mammoth_extractRawText env")
        case None
        with r Inr libs assms show ?thesis by (simp add: mergeDocx_def Let_def)
      next
        case (Some ex)
        show ?thesis
        proof (cases "ex buf")
          case x: (Inl e')
          with Some r Inr libs assms show ?thesis by (simp add: mergeDocx_def Let_def)
        next
          case x: (Inr textContent)
          with Some r Inr libs assms show ?thesis by (simp add: mergeDocx_def Let_def)
        qed
      qed
    qed
  qed
qed


lemma mergeAttempt_success_file:
  assumes "mergeAttempt env fd pairs s = (None, s')"
  shows "\<exists>rf. resultFile s' = Some rf \<and> rf_name rf = outputName (fd_name fd)
           \<and> rf_type rf = (if isDocx env fd then docx_mime else normalizeType (fd_type fd))
           \<and> mergeStatus s' = Success"
proof (cases "isDocx env fd")
  case True
  with assms mergeDocx_success_file [of env fd pairs s s'] show ?thesis
    by (simp add: mergeAttempt_def)
next
  case False
  with assms mergeText_success_file [of env fd pairs s s'] show ?thesis
    by (simp add: mergeAttempt_def)
qed

text \<open>
  Claim C8, as amended. After every substitution run that succeeds, in both variants, the
  output file's name is the input name with \<open>_merged\<close> put before its final extension
  when the name ends in a dot followed by one or more of the characters \<open>A-Z\<close>, \<open>a-z\<close>,
  \<open>0-9\<close>, \<open>_\<close> (whatever dots come before); any other name (no extension, an empty one,
  or one with another character in it) is kept unchanged. In the plain-text variant the
  mime type is the input's as the \<open>File\<close> constructor stores it (lower case, or empty when
  it holds a code unit outside U+0020 to U+007E), hence the input's unchanged whenever the
  input's type is already stored that way, as the type of every \<open>File\<close> is
  (\<open>normalizeType_idem\<close>); in the structured variant it is the word-processor type.
\<close>

theorem C8_output_name:
  assumes "mergeOutcome env fd s = None" and "keyValuePairs s \<noteq> []"
  shows "\<exists>rf. resultFile (handleMerge env (Some fd) s) = Some rf
           \<and> mergeStatus (handleMerge env (Some fd) s) = Success
           \<and> rf_name rf = outputName (fd_name fd)
           \<and> (\<forall>stem ext. fd_name fd = stem @ 0x2E # ext \<and> ext \<noteq> [] \<and> list_all isWordChar ext
                 \<longrightarrow> rf_name rf = stem @ js ''_merged'' @ 0x2E # ext)
           \<and> ((\<nexists>stem ext. fd_name fd = stem @ 0x2E # ext \<and> ext \<noteq> [] \<and> list_all isWordChar ext)
                 \<longrightarrow> rf_name rf = fd_name fd)
           \<and> (\<not> isDocx env fd \<longrightarrow> rf_type rf = normalizeType (fd_type fd))
           \<and> (\<not> isDocx env fd \<and> normalizeType (fd_type fd) = fd_type fd
                 \<longrightarrow> rf_type rf = fd_type fd)
           \<and> (isDocx env fd \<longrightarrow> rf_type rf = docx_mime)"
proof -
  let ?s0 = "s\<lparr>mergeStatus := Processing, resultFile := None\<rparr>"
  obtain s' where att: "mergeAttempt env fd (keyValuePairs s) ?s0 = (None, s')"
    using assms(1) by (cases "mergeAttempt env fd (keyValuePairs s) ?s0") (simp add: mergeOutcome_def)
  then have hm: "handleMerge env (Some fd) s = s'"
    using assms(2) by (simp add: handleMerge_def)
  from mergeAttempt_success_file [OF att] obtain rf where
    rf: "resultFile s' = Some rf" "rf_name rf = outputName (fd_name fd)"
        "rf_type rf = (if isDocx env fd then docx_mime else normalizeType (fd_type fd))"
        "mergeStatus s' = Success"
    by blast
  have ext: "\<forall>stem ext. fd_name fd = stem @ 0x2E # ext \<and> ext \<noteq> [] \<and> list_all isWordChar ext
                 \<longrightarrow> rf_name rf = stem @ js ''_merged'' @ 0x2E # ext"
    using rf(2) outputName_extension by simp
  have noext: "(\<nexists>stem ext. fd_name fd = stem @ 0x2E # ext \<and> ext \<noteq> [] \<and> list_all isWordChar ext)
                 \<longrightarrow> rf_name rf = fd_name fd"
    using rf(2) outputName_no_extension [of "fd_name fd"] by simp
  from rf hm ext noext show ?thesis by simp
qed

lemmas example_defs =
  example_pairs_def example_session_def example_env_def failing_render_env_def readme_file_def
  notes_file_def undecodable_file_def letter_file_def

lemmas string_defs = js_def startsWith_def endsWith_def trim_def isWhiteSpace_def

lemma readme_run:
  "handleMerge example_env (Some readme_file) example_session =
     \<lparr>keyValuePairs = [\<lparr>p_id = js ''id-1'', p_key = js ''NAME'', p_value = js ''Bob'', p_status = Replaced\<rparr>],
      mergeStatus = Success,
      mergeMessage = js ''Success! Replaced 1 instances.'',
      resultFile = Some \<lparr>rf_parts = TextParts (js ''Hello Bob, welcome''), rf_name = js ''README'',
                          rf_type = js ''text/plain'', rf_lastModified = 0\<rparr>,
      console = []\<rparr>"
  by (simp add: handleMerge_def mergeAttempt_def isDocx_def mergeText_def mergePair_def
      toLowerCase_def isAscii_def ascii_lower_def docx_mime_def example_defs string_defs
      isWordChar_def showNat.simps normalizeType_def)


text \<open>A run on \<open>notes.v2.txt\<close> gives \<open>notes.v2_merged.txt\<close> of type \<open>text/plain\<close>.\<close>

theorem C8_output_name_witness:
  "mergeOutcome example_env notes_file example_session = None
   \<and> keyValuePairs example_session \<noteq> []
   \<and> (\<exists>rf. resultFile (handleMerge example_env (Some notes_file) example_session) = Some rf
          \<and> rf_name rf = js ''notes.v2_merged.txt'' \<and> rf_type rf = js ''text/plain'')"
proof -
  have h1: "mergeOutcome example_env notes_file example_session = None"
    by (simp add: mergeOutcome_def mergeAttempt_def isDocx_def mergeText_def mergePair_def
        toLowerCase_def isAscii_def ascii_lower_def docx_mime_def example_defs string_defs)
  have h2: "keyValuePairs example_session \<noteq> []"
    by (simp add: example_defs)
  have nd: "\<not> isDocx example_env notes_file"
    by (simp add: isDocx_def toLowerCase_def isAscii_def ascii_lower_def docx_mime_def
        example_defs string_defs)
  have nm: "fd_name notes_file = js ''notes.v2'' @ 0x2E # js ''txt''
            \<and> js ''txt'' \<noteq> [] \<and> list_all isWordChar (js ''txt'')"
    by (simp add: example_defs js_def isWordChar_def)
  from C8_output_name [OF h1 h2] obtain rf where
    rf: "resultFile (handleMerge example_env (Some notes_file) example_session) = Some rf"
    and ext: "\<forall>stem ext. fd_name notes_file = stem @ 0x2E # ext \<and> ext \<noteq> []
                \<and> list_all isWordChar ext \<longrightarrow> rf_name rf = stem @ js ''_merged'' @ 0x2E # ext"
    and ty: "\<not> isDocx example_env notes_file \<and> normalizeType (fd_type notes_file) = fd_type notes_file
              \<longrightarrow> rf_type rf = fd_type notes_file"
    by blast
  from ext nm have "rf_name rf = js ''notes.v2'' @ js ''_merged'' @ 0x2E # js ''txt''"
    by blast
  then have "rf_name rf = js ''notes.v2_merged.txt''" by (simp add: js_def)
  moreover have "normalizeType (fd_type notes_file) = fd_type notes_file"
    by (simp add: example_defs normalizeType_def js_def ascii_lower_def)
  with ty nd have "rf_type rf = js ''text/plain''" by (simp add: example_defs)
  ultimately show ?thesis using h1 h2 rf by blast
qed

text \<open>
  Claim C8 as stated fails for a name with no extension: a successful run on \<open>README\<close>
  names its output \<open>README\<close>, not \<open>README_merged\<close>.
\<close>

theorem C8_counterexample_no_extension:
  "mergeStatus (handleMerge example_env (Some readme_file) example_session) = Success
   \<and> map_option rf_name (resultFile (handleMerge example_env (Some readme_file) example_session))
       = Some (js ''README'')
   \<and> insertBeforeExtension (fd_name readme_file) = js ''README_merged''"
  by (simp add: handleMerge_def mergeAttempt_def isDocx_def mergeText_def mergePair_def
      toLowerCase_def isAscii_def ascii_lower_def docx_mime_def example_defs string_defs
      isWordChar_def insertBeforeExtension_def normalizeType_def)

lemma checkPair_fields [simp]:
  "p_id (checkPair t p) = p_id p" "p_key (checkPair t p) = p_key p"
  "p_value (checkPair t p) = p_value p"
  by (simp_all add: checkPair_def)

text \<open>
  Claim C3, as amended. Every run of the substitution that fails leaves the session in the
  error state with the fixed message and no output document (an earlier result is
  cleared), and the identifiers, keys and values of the pairs as they were. The statuses
  of the pairs are also as they were in the plain-text variant, and in the structured
  variant whenever the raw text of the template was not extracted (a library missing, the
  buffer unreadable, the extraction absent or failing); when it was extracted before the
  failure, each pair carries the status of the advisory presence check.
\<close>

theorem C3_failed_run:
  assumes "mergeOutcome env fd s = Some err" and "keyValuePairs s \<noteq> []"
  defines "s' \<equiv> handleMerge env (Some fd) s"
  shows "mergeStatus s' = Error
         \<and> mergeMessage s' = js ''Failed to process file. Ensure identifiers match.''
         \<and> resultFile s' = None
         \<and> map p_id (keyValuePairs s') = map p_id (keyValuePairs s)
         \<and> map p_key (keyValuePairs s') = map p_key (keyValuePairs s)
         \<and> map p_value (keyValuePairs s') = map p_value (keyValuePairs s)
         \<and> (\<not> isDocx env fd \<longrightarrow> keyValuePairs s' = keyValuePairs s)
         \<and> ((\<nexists>buf ex textContent. fd_arrayBuffer fd = Inr buf
                 \<and> mammoth_extractRawText env = Some ex \<and> ex buf = Inr textContent)
              \<longrightarrow> keyValuePairs s' = keyValuePairs s)
         \<and> (\<not> (PizZip_loaded env \<and> docxtemplater_loaded env)
              \<longrightarrow> keyValuePairs s' = keyValuePairs s)
         \<and> (\<forall>buf ex textContent. isDocx env fd \<and> PizZip_loaded env \<and> docxtemplater_loaded env
                 \<and> fd_arrayBuffer fd = Inr buf \<and> mammoth_extractRawText env = Some ex
                 \<and> ex buf = Inr textContent
              \<longrightarrow> keyValuePairs s' = map (checkPair textContent) (keyValuePairs s))"
proof -
  let ?s0 = "s\<lparr>mergeStatus := Processing, resultFile := None\<rparr>"
  let ?msg = "js ''Failed to process file. Ensure identifiers match.''"
  obtain s1 where att: "mergeAttempt env fd (keyValuePairs s) ?s0 = (Some err, s1)"
    using assms(1) by (cases "mergeAttempt env fd (keyValuePairs s) ?s0") (simp add: mergeOutcome_def)
  have s': "s' = s1\<lparr>console := console s1 @ [ConsoleError [] err], mergeStatus := Error,
                    mergeMessage := ?msg\<rparr>"
    using att assms(2) by (simp add: s'_def handleMerge_def)
  show ?thesis
  proof (cases "isDocx env fd")
    case False
    with att have "mergeText env fd (keyValuePairs s) ?s0 = (Some err, s1)"
      by (simp add: mergeAttempt_def)
    then have "s1 = ?s0" using mergeText_failure by blast
    with s' False show ?thesis by simp
  next
    case True
    with att have d: "mergeDocx env fd (keyValuePairs s) ?s0 = (Some err, s1)"
      by (simp add: mergeAttempt_def)
    from mergeDocx_failure [OF d] s' True show ?thesis
      by (elim disjE exE conjE) (auto simp: comp_def)
  qed
qed


text \<open>A plain-text target whose text cannot be decoded: the pairs are untouched.\<close>

theorem C3_failed_run_witness:
  "mergeOutcome example_env undecodable_file example_session = Some Failure
   \<and> keyValuePairs example_session \<noteq> []
   \<and> mergeStatus (handleMerge example_env (Some undecodable_file) example_session) = Error
   \<and> resultFile (handleMerge example_env (Some undecodable_file) example_session) = None
   \<and> keyValuePairs (handleMerge example_env (Some undecodable_file) example_session)
       = keyValuePairs example_session"
proof -
  have h1: "mergeOutcome example_env undecodable_file example_session = Some Failure"
    by (simp add: mergeOutcome_def mergeAttempt_def isDocx_def mergeText_def
        toLowerCase_def isAscii_def ascii_lower_def docx_mime_def example_defs string_defs)
  have h2: "keyValuePairs example_session \<noteq> []"
    by (simp add: example_defs)
  have nd: "\<not> isDocx example_env undecodable_file"
    by (simp add: isDocx_def toLowerCase_def isAscii_def ascii_lower_def docx_mime_def
        example_defs string_defs)
  from C3_failed_run [OF h1 h2] nd h1 h2 show ?thesis by blast
qed

text \<open>
  Claim C3 as stated fails in the structured variant: the presence check has set the
  pair's status to \<open>replaced\<close> when the renderer throws.
\<close>

theorem C3_counterexample_statuses_changed:
  "mergeOutcome failing_render_env letter_file example_session = Some Failure
   \<and> mergeStatus (handleMerge failing_render_env (Some letter_file) example_session) = Error
   \<and> map p_status (keyValuePairs example_session) = [Unset]
   \<and> map p_status (keyValuePairs (handleMerge failing_render_env (Some letter_file) example_session))
       = [Replaced]"
  by (simp add: mergeOutcome_def handleMerge_def mergeAttempt_def isDocx_def mergeDocx_def
      checkPair_def searchKey_def toLowerCase_def isAscii_def ascii_lower_def docx_mime_def
      example_defs string_defs)

section \<open>Properties of the plain-text substitution\<close>

lemma startsWith_prefix: "startsWith s p \<longleftrightarrow> prefix p s"
  by (metis startsWith_def prefix_def append_eq_conv_conj take_is_prefix)

lemma includes_js_sublist: "includes_js s k \<longleftrightarrow> sublist k s"
  by (induction s) (simp_all add: sublist_Cons_right startsWith_prefix)

lemma expand_plain: "plainTemplate v \<Longrightarrow> expand v m pre post = v"
  by (induction v rule: plainTemplate.induct) auto

lemma plainTemplate_no_dollar: "0x24 \<notin> set v \<Longrightarrow> plainTemplate v"
  by (induction v rule: plainTemplate.induct) auto

lemma splitOn_nonempty [simp]: "splitOn k t \<noteq> []"
  by (induction k t rule: splitOn.induct) (auto split: list.splits)

lemma joinWith_Cons: "ps \<noteq> [] \<Longrightarrow> joinWith k (p # ps) = p @ k @ joinWith k ps"
  by (cases ps) simp_all

lemma joinWith_Cons_piece:
  "joinWith k ((c # p) # ps) = c # joinWith k (p # ps)"
  by (cases ps) simp_all

lemma startsWith_drop: "startsWith s k \<Longrightarrow> k @ drop (length k) s = s"
  by (metis startsWith_def append_take_drop_id)

lemma joinWith_splitOn: "joinWith k (splitOn k t) = t"
proof (induction k t rule: splitOn.induct)
  case (1 k)
  then show ?case by simp
next
  case (2 k c cs)
  show ?case
  proof (cases "k \<noteq> [] \<and> startsWith (c # cs) k")
    case True
    with 2 show ?thesis by (simp add: joinWith_Cons startsWith_drop del: drop_Suc_Cons)
  next
    case False
    with 2 show ?thesis
      by (cases "splitOn k cs") (auto simp: joinWith_Cons_piece)
  qed
qed

lemma countMatches_splitOn: "countMatches k t = length (splitOn k t) - 1"
proof (induction k t rule: splitOn.induct)
  case (1 k)
  then show ?case by simp
next
  case (2 k c cs)
  show ?case
  proof (cases "k \<noteq> [] \<and> startsWith (c # cs) k")
    case True
    with 2 show ?thesis
      by (cases "splitOn k (drop (length k) (c # cs))") (simp_all del: drop_Suc_Cons)
  next
    case False
    with 2 show ?thesis
      by (cases "splitOn k cs") auto
  qed
qed

lemma replaceAll_splitOn:
  "plainTemplate v \<Longrightarrow> replaceAll k v pre t = joinWith v (splitOn k t)"
proof (induction k v pre t rule: replaceAll.induct)
  case (1 k v pre)
  then show ?case by simp
next
  case (2 k v pre c cs)
  show ?case
  proof (cases "k \<noteq> [] \<and> startsWith (c # cs) k")
    case True
    with 2 show ?thesis
      by (simp add: joinWith_Cons expand_plain del: drop_Suc_Cons)
  next
    case False
    with 2 show ?thesis
      by (cases "splitOn k cs") (auto simp: joinWith_Cons_piece)
  qed
qed


lemma not_sublist_butlast: "k \<noteq> [] \<Longrightarrow> \<not> sublist k (butlast k)"
proof
  assume "k \<noteq> []" and "sublist k (butlast k)"
  then have "length k \<le> length (butlast k)" by (intro sublist_length_le)
  moreover have "length (butlast k) = length k - 1" by simp
  ultimately show False using \<open>k \<noteq> []\<close> by (cases k) simp_all
qed

lemma splitOn_last: "k \<noteq> [] \<Longrightarrow> \<not> sublist k (last (splitOn k t))"
proof (induction k t rule: splitOn.induct)
  case (1 k)
  then show ?case by simp
next
  case (2 k c cs)
  show ?case
  proof (cases "startsWith (c # cs) k")
    case True
    with 2 show ?thesis by (simp del: drop_Suc_Cons)
  next
    case False
    obtain piece pieces where sp: "splitOn k cs = piece # pieces"
      by (cases "splitOn k cs") simp_all
    show ?thesis
    proof (cases "pieces = []")
      case True
      with sp have "cs = piece" using joinWith_splitOn [of k cs] by simp
      moreover from 2 False sp True have "\<not> sublist k piece" by simp
      ultimately have "\<not> sublist k (c # piece)"
        using False by (simp add: sublist_Cons_right startsWith_prefix)
      with False sp True show ?thesis by simp
    next
      case ne: False
      with 2 False sp show ?thesis by simp
    qed
  qed
qed

lemma splitOn_butlast:
  "k \<noteq> [] \<Longrightarrow> list_all (\<lambda>piece. \<not> sublist k (piece @ butlast k)) (butlast (splitOn k t))"
proof (induction k t rule: splitOn.induct)
  case (1 k)
  then show ?case by simp
next
  case (2 k c cs)
  show ?case
  proof (cases "startsWith (c # cs) k")
    case True
    with 2 show ?thesis by (simp add: not_sublist_butlast del: drop_Suc_Cons)
  next
    case False
    obtain piece pieces where sp: "splitOn k cs = piece # pieces"
      by (cases "splitOn k cs") simp_all
    show ?thesis
    proof (cases "pieces = []")
      case True
      with False sp 2 show ?thesis by simp
    next
      case ne: False
      from 2 False sp ne have ih: "\<not> sublist k (piece @ butlast k)"
        and ihs: "list_all (\<lambda>piece. \<not> sublist k (piece @ butlast k)) (butlast pieces)"
        by simp_all
      have cs: "cs = piece @ k @ joinWith k pieces"
        using joinWith_splitOn [of k cs] sp ne by (simp add: joinWith_Cons)
      have "\<not> prefix k (c # piece @ butlast k)"
      proof
        assume p: "prefix k (c # piece @ butlast k)"
        have "prefix (c # piece @ butlast k) (c # piece @ k @ joinWith k pieces)"
          by (simp add: prefixeq_butlast)
        with p have "prefix k (c # cs)" using cs by (metis prefix_order.trans)
        with False show False by (simp add: startsWith_prefix)
      qed
      with ih have "\<not> sublist k ((c # piece) @ butlast k)"
        by (simp add: sublist_Cons_right)
      with ihs False sp ne 2 show ?thesis by simp
    qed
  qed
qed

lemma occurrencesSplit_splitOn:
  "k \<noteq> [] \<Longrightarrow> occurrencesSplit k t (splitOn k t)"
  by (simp add: occurrencesSplit_def joinWith_splitOn splitOn_butlast splitOn_last)

lemma countMatches_pos: "k \<noteq> [] \<Longrightarrow> 0 < countMatches k t \<longleftrightarrow> sublist k t"
proof (induction k t rule: countMatches.induct)
  case (1 k)
  then show ?case by simp
next
  case (2 k c cs)
  then show ?case
    by (cases "startsWith (c # cs) k") (simp_all add: sublist_Cons_right startsWith_prefix)
qed


lemma mergePairs_append:
  "mergePairs (ps @ qs) st =
     (case mergePairs ps st of (ps', st') \<Rightarrow>
        (case mergePairs qs st' of (qs', st'') \<Rightarrow> (ps' @ qs', st'')))"
  by (induction ps arbitrary: st) (simp_all split: prod.splits)

lemma mergePair_found:
  assumes "p_key p \<noteq> []" and "sublist (p_key p) t"
  shows "mergePair p (t, n) =
           (p\<lparr>p_status := Replaced\<rparr>, replaceAll (p_key p) (p_value p) [] t,
            n + countMatches (p_key p) t)"
  using assms countMatches_pos [of "p_key p" t]
  by (simp add: mergePair_def includes_js_sublist Let_def)

lemma mergePair_not_found:
  assumes "\<not> (p_key p \<noteq> [] \<and> sublist (p_key p) t)"
  shows "mergePair p (t, n) = (p\<lparr>p_status := NotFound\<rparr>, t, n)"
  using assms by (auto simp add: mergePair_def includes_js_sublist Let_def)

lemma occurrencesSplit_Nil:
  assumes "k \<noteq> []" and "occurrencesSplit k [] pieces"
  shows "pieces = [[]]"
proof (cases pieces)
  case Nil
  with assms show ?thesis by (simp add: occurrencesSplit_def)
next
  case (Cons x xs)
  show ?thesis
  proof (cases xs)
    case Nil
    with Cons assms show ?thesis by (simp add: occurrencesSplit_def)
  next
    case c2: (Cons y ys)
    with Cons assms show ?thesis by (simp add: occurrencesSplit_def)
  qed
qed

lemma occurrencesSplit_tail:
  assumes "occurrencesSplit k t (x # xs)" and "xs \<noteq> []"
  shows "t = x @ k @ joinWith k xs" and "\<not> sublist k (x @ butlast k)"
    and "occurrencesSplit k (joinWith k xs) xs"
  using assms by (simp_all add: occurrencesSplit_def joinWith_Cons)

lemma occurrencesSplit_match:
  assumes k: "k \<noteq> []" and occ: "occurrencesSplit k t pieces" and pre: "prefix k t"
  shows "\<exists>rest. pieces = [] # rest \<and> occurrencesSplit k (drop (length k) t) rest"
proof (cases pieces)
  case Nil
  with occ show ?thesis by (simp add: occurrencesSplit_def)
next
  case (Cons x xs)
  show ?thesis
  proof (cases "xs = []")
    case True
    with Cons occ have "\<not> sublist k t" by (auto simp add: occurrencesSplit_def)
    with pre show ?thesis by auto
  next
    case False
    note tl = occurrencesSplit_tail [OF occ [unfolded Cons] False]
    have "x = []"
    proof (rule ccontr)
      assume "x \<noteq> []"
      then have "length k \<le> length (x @ butlast k)" using k by (cases x) auto
      moreover have "prefix (x @ butlast k) t"
        unfolding tl(1) by (simp add: prefixeq_butlast)
      ultimately have "prefix k (x @ butlast k)"
        using pre by (metis prefix_length_prefix)
      with tl(2) show False by auto
    qed
    with tl Cons show ?thesis by simp
  qed
qed

lemma occurrencesSplit_no_match:
  assumes k: "k \<noteq> []" and occ: "occurrencesSplit k (c # cs) pieces"
    and pre: "\<not> prefix k (c # cs)"
  shows "\<exists>x xs. pieces = (c # x) # xs \<and> occurrencesSplit k cs (x # xs)"
proof (cases pieces)
  case Nil
  with occ show ?thesis by (simp add: occurrencesSplit_def)
next
  case (Cons y xs)
  show ?thesis
  proof (cases "xs = []")
    case True
    with Cons occ have y: "y = c # cs" and ns: "\<not> sublist k (c # cs)"
      by (auto simp add: occurrencesSplit_def)
    then have "\<not> sublist k cs" by (simp add: sublist_Cons_right)
    with y Cons True show ?thesis by (simp add: occurrencesSplit_def)
  next
    case False
    note tl = occurrencesSplit_tail [OF occ [unfolded Cons] False]
    have "y \<noteq> []"
    proof
      assume "y = []"
      with tl(1) have "prefix k (c # cs)" by simp
      with pre show False by simp
    qed
    then obtain x where y: "y = c # x" using tl(1) by (cases y) auto
    with tl(1) have cs: "cs = x @ k @ joinWith k xs" by simp
    from tl(2) y have "\<not> sublist k (x @ butlast k)" by (simp add: sublist_Cons_right)
    with cs occ Cons y False have "occurrencesSplit k cs (x # xs)"
      by (simp add: occurrencesSplit_def joinWith_Cons)
    with Cons y show ?thesis by simp
  qed
qed

lemma occurrencesSplit_unique:
  "k \<noteq> [] \<Longrightarrow> occurrencesSplit k t pieces \<Longrightarrow> pieces = splitOn k t"
proof (induction k t arbitrary: pieces rule: splitOn.induct)
  case (1 k)
  then show ?case by (simp add: occurrencesSplit_Nil)
next
  case (2 k c cs)
  show ?case
  proof (cases "startsWith (c # cs) k")
    case True
    then have "prefix k (c # cs)" by (simp add: startsWith_prefix)
    from occurrencesSplit_match [OF "2.prems"(1) "2.prems"(2) this]
    obtain rest where r: "pieces = [] # rest"
      "occurrencesSplit k (drop (length k) (c # cs)) rest" by blast
    with "2.IH"(1) "2.prems"(1) True have "rest = splitOn k (drop (length k) (c # cs))"
      by simp
    with r True "2.prems"(1) show ?thesis by (simp del: drop_Suc_Cons)
  next
    case False
    then have "\<not> prefix k (c # cs)" by (simp add: startsWith_prefix)
    from occurrencesSplit_no_match [OF "2.prems"(1) "2.prems"(2) this]
    obtain x xs where r: "pieces = (c # x) # xs" "occurrencesSplit k cs (x # xs)" by blast
    with "2.IH"(2) "2.prems"(1) False have "x # xs = splitOn k cs" by simp
    with r False show ?thesis by (metis list.simps(5) splitOn.simps(2))
  qed
qed

lemma mergePairs_length: "length (fst (mergePairs ps st)) = length ps"
proof (induction ps arbitrary: st)
  case Nil
  then show ?case by simp
next
  case (Cons p ps)
  obtain p' st' where a: "mergePair p st = (p', st')" by (cases "mergePair p st")
  obtain ps' st'' where b: "mergePairs ps st' = (ps', st'')" by (cases "mergePairs ps st'")
  from Cons.IH [of st'] b have "length ps' = length ps" by simp
  with a b show ?case by simp
qed

text \<open>
  A value is a replacement template: the value \<open>$&\<close> puts the key back, and \<open>$$\<close>
  leaves one \<open>$\<close>.
\<close>

lemma replacement_patterns_expanded:
  "mergePairs [pair ''id-1'' ''NAME'' ''$&'', pair ''id-2'' ''Hello'' ''$$5'']
     (js ''Hello NAME'', 0)
   = ([(pair ''id-1'' ''NAME'' ''$&'')\<lparr>p_status := Replaced\<rparr>,
       (pair ''id-2'' ''Hello'' ''$$5'')\<lparr>p_status := Replaced\<rparr>], js ''$5 NAME'', 2)"
  by (simp add: mergePair_def pair_def js_def startsWith_def)

text \<open>
  Claim C6, as amended. The pairs are processed in list order, each against the text as
  the earlier pairs have left it (\<open>t\<close>, with \<open>n\<close> replacements counted so far; for the
  first pair the document text). A pair whose key is not empty and occurs in that text
  gets the status \<open>replaced\<close>, whatever pairs follow; the text splits in exactly one way
  into pieces with the occurrences of the key between them, found from the left without
  overlap; the number of occurrences is added to the count; and when the value holds no
  replacement pattern, the new text is the same pieces with the value between them. A
  pair whose key is empty or absent from that text gets \<open>not-found\<close> and changes neither
  the text nor the count.
\<close>

theorem C6_pair_against_current_text:
  assumes "mergePairs ps (doc, 0) = (ps', t, n)"
  shows "\<exists>p' t' n'.
           mergePairs (ps @ [p]) (doc, 0) = (ps' @ [p'], t', n')
           \<and> (\<forall>qs. fst (mergePairs (ps @ p # qs) (doc, 0)) ! length ps = p')
           \<and> p' = p\<lparr>p_status := (if p_key p \<noteq> [] \<and> sublist (p_key p) t then Replaced else NotFound)\<rparr>
           \<and> (if p_key p \<noteq> [] \<and> sublist (p_key p) t
               then (\<exists>pieces. occurrencesSplit (p_key p) t pieces
                       \<and> (\<forall>other. occurrencesSplit (p_key p) t other \<longrightarrow> other = pieces)
                       \<and> 2 \<le> length pieces
                       \<and> n' = n + (length pieces - 1)
                       \<and> (plainTemplate (p_value p) \<longrightarrow> t' = joinWith (p_value p) pieces))
               else t' = t \<and> n' = n)"
proof -
  have len: "length ps' = length ps"
    using mergePairs_length [of ps "(doc, 0)"] assms by simp
  have later: "fst (mergePairs (ps @ p # qs) (doc, 0)) ! length ps = fst (mergePair p (t, n))" for qs
    using assms len by (simp add: mergePairs_append nth_append split: prod.splits)
  show ?thesis
  proof (cases "p_key p \<noteq> [] \<and> sublist (p_key p) t")
    case True
    let ?pieces = "splitOn (p_key p) t"
    have step: "mergePair p (t, n) =
                  (p\<lparr>p_status := Replaced\<rparr>, replaceAll (p_key p) (p_value p) [] t,
                   n + countMatches (p_key p) t)"
      using True by (simp add: mergePair_found)
    have run: "mergePairs (ps @ [p]) (doc, 0) =
                 (ps' @ [p\<lparr>p_status := Replaced\<rparr>], replaceAll (p_key p) (p_value p) [] t,
                  n + countMatches (p_key p) t)"
      using assms step by (simp add: mergePairs_append)
    have occ: "occurrencesSplit (p_key p) t ?pieces"
      using True by (simp add: occurrencesSplit_splitOn)
    have uniq: "\<forall>other. occurrencesSplit (p_key p) t other \<longrightarrow> other = ?pieces"
      using True occurrencesSplit_unique by blast
    have cnt: "countMatches (p_key p) t = length ?pieces - 1"
      by (rule countMatches_splitOn)
    have pos: "0 < countMatches (p_key p) t"
      using True by (simp add: countMatches_pos)
    with cnt have two: "2 \<le> length ?pieces" by simp
    have rep: "plainTemplate (p_value p) \<longrightarrow>
                 replaceAll (p_key p) (p_value p) [] t = joinWith (p_value p) ?pieces"
      by (simp add: replaceAll_splitOn)
    from cnt have cnt': "n + countMatches (p_key p) t = n + (length ?pieces - 1)" by simp
    from occ uniq two cnt' rep have ex:
      "\<exists>pieces. occurrencesSplit (p_key p) t pieces
          \<and> (\<forall>other. occurrencesSplit (p_key p) t other \<longrightarrow> other = pieces)
          \<and> 2 \<le> length pieces
          \<and> n + countMatches (p_key p) t = n + (length pieces - 1)
          \<and> (plainTemplate (p_value p) \<longrightarrow>
               replaceAll (p_key p) (p_value p) [] t = joinWith (p_value p) pieces)"
      by blast
    show ?thesis
      unfolding if_P [OF True] run using ex later step by simp
  next
    case False
    have step: "mergePair p (t, n) = (p\<lparr>p_status := NotFound\<rparr>, t, n)"
      using False by (simp add: mergePair_not_found)
    have run: "mergePairs (ps @ [p]) (doc, 0) = (ps' @ [p\<lparr>p_status := NotFound\<rparr>], t, n)"
      using assms step by (simp add: mergePairs_append)
    show ?thesis
      unfolding if_not_P [OF False] run using later step by simp
  qed
qed

lemmas merge_eval =
  mergePair_def pair_def js_def startsWith_def

text \<open>
  The text \<open>Hello NAME, welcome\<close> with the pair \<open>NAME\<close>, \<open>Bob\<close> gives
  \<open>Hello Bob, welcome\<close>, status \<open>replaced\<close> and count 1; a pair whose key is absent
  gives \<open>not-found\<close> and count 0.
\<close>

theorem C6_pair_against_current_text_witness:
  "mergePairs [] (js ''Hello NAME, welcome'', 0) = ([], js ''Hello NAME, welcome'', 0)
   \<and> (\<exists>p' t' n'.
         mergePairs ([] @ [pair ''id-1'' ''NAME'' ''Bob'']) (js ''Hello NAME, welcome'', 0)
           = ([] @ [p'], t', n')
         \<and> p' = (pair ''id-1'' ''NAME'' ''Bob'')\<lparr>p_status := Replaced\<rparr>
         \<and> t' = js ''Hello Bob, welcome'' \<and> n' = 1)
   \<and> (\<exists>p' t' n'.
         mergePairs ([] @ [pair ''id-2'' ''CITY'' ''Oslo'']) (js ''Hello NAME, welcome'', 0)
           = ([] @ [p'], t', n')
         \<and> p' = (pair ''id-2'' ''CITY'' ''Oslo'')\<lparr>p_status := NotFound\<rparr>
         \<and> t' = js ''Hello NAME, welcome'' \<and> n' = 0)"
proof -
  let ?doc = "js ''Hello NAME, welcome''"
  have h: "mergePairs [] (?doc, 0) = ([], ?doc, 0)" by simp
  have e1: "mergePairs ([] @ [pair ''id-1'' ''NAME'' ''Bob'']) (?doc, 0)
              = ([] @ [(pair ''id-1'' ''NAME'' ''Bob'')\<lparr>p_status := Replaced\<rparr>],
                 js ''Hello Bob, welcome'', 1)"
    by (simp add: merge_eval)
  have e2: "mergePairs ([] @ [pair ''id-2'' ''CITY'' ''Oslo'']) (?doc, 0)
              = ([] @ [(pair ''id-2'' ''CITY'' ''Oslo'')\<lparr>p_status := NotFound\<rparr>], ?doc, 0)"
    by (simp add: merge_eval)
  from C6_pair_against_current_text [OF h, of "pair ''id-1'' ''NAME'' ''Bob''"]
  obtain p1 t1 n1 where
    "mergePairs ([] @ [pair ''id-1'' ''NAME'' ''Bob'']) (?doc, 0) = ([] @ [p1], t1, n1)"
    by blast
  with e1 have a: "\<exists>p' t' n'.
         mergePairs ([] @ [pair ''id-1'' ''NAME'' ''Bob'']) (?doc, 0) = ([] @ [p'], t', n')
         \<and> p' = (pair ''id-1'' ''NAME'' ''Bob'')\<lparr>p_status := Replaced\<rparr>
         \<and> t' = js ''Hello Bob, welcome'' \<and> n' = 1"
    by simp
  from C6_pair_against_current_text [OF h, of "pair ''id-2'' ''CITY'' ''Oslo''"]
  obtain p2 t2 n2 where
    "mergePairs ([] @ [pair ''id-2'' ''CITY'' ''Oslo'']) (?doc, 0) = ([] @ [p2], t2, n2)"
    by blast
  with e2 have b: "\<exists>p' t' n'.
         mergePairs ([] @ [pair ''id-2'' ''CITY'' ''Oslo'']) (?doc, 0) = ([] @ [p'], t', n')
         \<and> p' = (pair ''id-2'' ''CITY'' ''Oslo'')\<lparr>p_status := NotFound\<rparr>
         \<and> t' = ?doc \<and> n' = 0"
    by simp
  from h a b show ?thesis by blast
qed

text \<open>
  Claim C6 as stated, about the keys that occur in the document text, fails when an
  earlier pair has consumed the occurrence: \<open>AB\<close> occurs in the document \<open>AB\<close>, yet
  after the pair \<open>A\<close> the pair \<open>AB\<close> is \<open>not-found\<close>.
\<close>

theorem C6_counterexample_key_in_document_not_found:
  "sublist (js ''AB'') (js ''AB'')
   \<and> mergePairs [pair ''id-1'' ''A'' ''x'', pair ''id-2'' ''AB'' ''y''] (js ''AB'', 0)
       = ([(pair ''id-1'' ''A'' ''x'')\<lparr>p_status := Replaced\<rparr>,
           (pair ''id-2'' ''AB'' ''y'')\<lparr>p_status := NotFound\<rparr>], js ''xB'', 1)"
  by (simp add: merge_eval)

text \<open>
  Claim C10. Running a list of pairs is running its first part and then the rest on the
  text and the count the first part has left. So a later key can match text that an
  earlier value has introduced (\<open>B\<close> is absent from the document \<open>A\<close> and is still
  replaced after \<open>A\<close> became \<open>B\<close>); the final text, the statuses and the count depend on
  the order of the pairs; and what a pair adds to the count is counted in the partially
  substituted text (\<open>B\<close> occurs 0 times in \<open>AA\<close> and adds 4).
\<close>

theorem C10_pairs_applied_in_sequence:
  "mergePairs (ps @ qs) st =
     (case mergePairs ps st of (ps', st') \<Rightarrow>
        (case mergePairs qs st' of (qs', st'') \<Rightarrow> (ps' @ qs', st'')))
   \<and> \<not> sublist (js ''B'') (js ''A'')
   \<and> mergePairs [pair ''id-1'' ''A'' ''B'', pair ''id-2'' ''B'' ''C''] (js ''A'', 0)
       = ([(pair ''id-1'' ''A'' ''B'')\<lparr>p_status := Replaced\<rparr>,
           (pair ''id-2'' ''B'' ''C'')\<lparr>p_status := Replaced\<rparr>], js ''C'', 2)
   \<and> mergePairs [pair ''id-2'' ''B'' ''C'', pair ''id-1'' ''A'' ''B''] (js ''A'', 0)
       = ([(pair ''id-2'' ''B'' ''C'')\<lparr>p_status := NotFound\<rparr>,
           (pair ''id-1'' ''A'' ''B'')\<lparr>p_status := Replaced\<rparr>], js ''B'', 1)
   \<and> countMatches (js ''B'') (js ''AA'') = 0
   \<and> mergePairs [pair ''id-1'' ''A'' ''BB'', pair ''id-2'' ''B'' ''x''] (js ''AA'', 0)
       = ([(pair ''id-1'' ''A'' ''BB'')\<lparr>p_status := Replaced\<rparr>,
           (pair ''id-2'' ''B'' ''x'')\<lparr>p_status := Replaced\<rparr>], js ''xxxx'', 6)"
proof -
  have seq: "mergePairs (ps @ qs) st =
     (case mergePairs ps st of (ps', st') \<Rightarrow>
        (case mergePairs qs st' of (qs', st'') \<Rightarrow> (ps' @ qs', st'')))"
    by (rule mergePairs_append)
  have "\<not> includes_js (js ''A'') (js ''B'')" by (simp add: merge_eval)
  then have absent: "\<not> sublist (js ''B'') (js ''A'')" by (simp add: includes_js_sublist)
  have e1: "mergePairs [pair ''id-1'' ''A'' ''B'', pair ''id-2'' ''B'' ''C''] (js ''A'', 0)
       = ([(pair ''id-1'' ''A'' ''B'')\<lparr>p_status := Replaced\<rparr>,
           (pair ''id-2'' ''B'' ''C'')\<lparr>p_status := Replaced\<rparr>], js ''C'', 2)"
    by (simp add: merge_eval)
  have e2: "mergePairs [pair ''id-2'' ''B'' ''C'', pair ''id-1'' ''A'' ''B''] (js ''A'', 0)
       = ([(pair ''id-2'' ''B'' ''C'')\<lparr>p_status := NotFound\<rparr>,
           (pair ''id-1'' ''A'' ''B'')\<lparr>p_status := Replaced\<rparr>], js ''B'', 1)"
    by (simp add: merge_eval)
  have e3: "countMatches (js ''B'') (js ''AA'') = 0" by (simp add: merge_eval)
  have e4: "mergePairs [pair ''id-1'' ''A'' ''BB'', pair ''id-2'' ''B'' ''x''] (js ''AA'', 0)
       = ([(pair ''id-1'' ''A'' ''BB'')\<lparr>p_status := Replaced\<rparr>,
           (pair ''id-2'' ''B'' ''x'')\<lparr>p_status := Replaced\<rparr>], js ''xxxx'', 6)"
    by (simp add: merge_eval)
  from seq absent e1 e2 e3 e4 show ?thesis by blast
qed

section \<open>Properties of the format parsers\<close>

lemma matchFrom_top:
  "matchRest s (Suc n) = Some g \<Longrightarrow> matchFrom s (Suc n) = Some g"
  by simp

lemma matchKeyValue_first_delimiter:
  assumes key: "takeWhile isKeyChar l \<noteq> []"
    and delim: "dropWhile isKeyChar l \<noteq> []"
    and noterm: "list_all (\<lambda>c. \<not> isLineTerminator c) (dropWhile isDelimiter (dropWhile isKeyChar l))"
  shows "matchKeyValue l =
           Some (takeWhile isKeyChar l, dropWhile isDelimiter (dropWhile isKeyChar l))"
proof -
  let ?g = "takeWhile isKeyChar l"
  let ?rest = "dropWhile isKeyChar l"
  define g where "g = takeWhile isKeyChar l"
  define rest where "rest = dropWhile isKeyChar l"
  from key have "0 < length g" by (simp add: g_def)
  then obtain n where n: "length g = Suc n" using gr0_implies_Suc by blast
  have d: "drop (length g) l = rest" by (simp add: dropWhile_eq_drop [symmetric] g_def rest_def)
  have t: "take (length g) l = g" by (simp add: takeWhile_eq_take [symmetric] g_def)
  from delim have "\<not> isKeyChar (hd rest)" unfolding rest_def by (rule hd_dropWhile)
  then have "isDelimiter (hd rest)" by (auto simp add: isKeyChar_def isDelimiter_def)
  moreover from delim have "rest \<noteq> []" by (simp add: rest_def)
  ultimately have "takeWhile isDelimiter rest \<noteq> []" by (cases rest) simp_all
  moreover from noterm have "list_all (\<lambda>c. \<not> isLineTerminator c) (dropWhile isDelimiter rest)"
    by (simp add: rest_def)
  ultimately have "matchRest l (Suc n) = Some (g, dropWhile isDelimiter rest)"
    using d t n by (simp add: matchRest_def)
  then have "matchFrom l (Suc n) = Some (g, dropWhile isDelimiter rest)"
    by (rule matchFrom_top)
  then show ?thesis using n by (simp add: matchKeyValue_def g_def rest_def)
qed

lemmas parse_eval =
  parseLines_def parseLine_def matchKeyValue_def matchRest_def isKeyChar_def isDelimiter_def
  isLineTerminator_def obj_set_def obj_entries_def isArrayIndex_def isDigit_def digitsValue_def
  js_def startsWith_def trim_def isWhiteSpace_def

lemma parseLine_delimited:
  assumes "delimitedLine line"
  shows "parseLine data line = obj_set (lineKey line) (lineValue line) data"
proof -
  from assms have ne: "trim line \<noteq> []" by (auto simp: delimitedLine_def)
  from assms have "matchKeyValue (trim line) =
      Some (takeWhile isKeyChar (trim line),
            dropWhile isDelimiter (dropWhile isKeyChar (trim line)))"
    by (intro matchKeyValue_first_delimiter) (simp_all add: delimitedLine_def)
  with ne show ?thesis by (simp add: parseLine_def lineKey_def lineValue_def Let_def)
qed

lemma parseLine_blank: "trim line = [] \<Longrightarrow> parseLine data line = data"
  by (simp add: parseLine_def)

lemma foldl_parseLine_delimited:
  assumes "list_all (\<lambda>line. trim line = [] \<or> delimitedLine line) ls"
  shows "foldl parseLine data ls =
           foldl (\<lambda>data line. obj_set (lineKey line) (lineValue line) data) data
             (filter (\<lambda>line. trim line \<noteq> []) ls)"
  using assms
proof (induction ls arbitrary: data)
  case Nil
  then show ?case by simp
next
  case (Cons l ls)
  then show ?case
    by (cases "trim l = []") (simp_all add: parseLine_blank parseLine_delimited)
qed

lemma parseLines_all_delimited:
  assumes "list_all (\<lambda>line. trim line = [] \<or> delimitedLine line) (splitOn [0xA] text)"
  shows "parseLines text =
           foldl (\<lambda>data line. obj_set (lineKey line) (lineValue line) data) []
             (filter (\<lambda>line. trim line \<noteq> []) (splitOn [0xA] text))"
  using foldl_parseLine_delimited [OF assms] by (simp add: parseLines_def)

lemma parseLines_blank_line:
  assumes "splitOn [0xA] text = earlier @ line # later" and "trim line = []"
  shows "parseLines text = foldl parseLine (foldl parseLine [] earlier) later"
  using assms by (simp add: parseLines_def parseLine_blank)

lemma map_of_obj_update: "map_of (obj_update k v ob) = (map_of ob)(k \<mapsto> v)"
  by (induction ob) (auto simp: fun_eq_iff)

lemma obj_get_obj_set:
  "k \<noteq> js ''__proto__'' \<Longrightarrow> obj_get (obj_set k v ob) k' = (if k' = k then Some v else obj_get ob k')"
  by (simp add: obj_get_def obj_set_def map_of_obj_update)

text \<open>
  Claim C7, as amended. For any text that \<open>JSON.parse\<close> rejects, whatever its other lines
  are, each line that is delimited (its trimmed text starts with a code unit other than
  \<open>:\<close>, \<open>=\<close>, \<open>,\<close>, holds one of them, and holds no line terminator after them) is
  assigned, at its place in the order of the lines, with the trimmed text before the first
  \<open>:\<close>, \<open>=\<close> or \<open>,\<close> as the key and the trimmed text after the run of \<open>:\<close>, \<open>=\<close>,
  \<open>,\<close> and tab characters that starts there as the value: the mapping built from the
  lines before it gets this entry (a key other than \<open>__proto__\<close> then holds this value),
  and the lines after it are parsed from there. The lines \<open>A:1\<close>, \<open>B=2\<close>, \<open>C,3\<close> give
  exactly the pairs \<open>A\<close>, \<open>1\<close>; \<open>B\<close>, \<open>2\<close>; \<open>C\<close>, \<open>3\<close>, in that order.
\<close>

theorem C7_delimited_line_in_any_text:
  assumes "splitOn [0xA] text = earlier @ line # later" and "delimitedLine line"
  shows "parseLines text =
           foldl parseLine
             (obj_set (lineKey line) (lineValue line) (foldl parseLine [] earlier)) later
         \<and> (lineKey line \<noteq> js ''__proto__'' \<longrightarrow>
              obj_get (obj_set (lineKey line) (lineValue line) (foldl parseLine [] earlier))
                (lineKey line) = Some (lineValue line))
         \<and> obj_entries (parseLines (js ''A:1'' @ [0xA] @ js ''B=2'' @ [0xA] @ js ''C,3''))
             = [(js ''A'', js ''1''), (js ''B'', js ''2''), (js ''C'', js ''3'')]"
proof -
  have "obj_entries (parseLines (js ''A:1'' @ [0xA] @ js ''B=2'' @ [0xA] @ js ''C,3''))
          = [(js ''A'', js ''1''), (js ''B'', js ''2''), (js ''C'', js ''3'')]"
    by (simp add: parse_eval)
  moreover have "parseLines text =
           foldl parseLine
             (obj_set (lineKey line) (lineValue line) (foldl parseLine [] earlier)) later"
    using assms by (simp add: parseLines_def parseLine_delimited)
  ultimately show ?thesis by (simp add: obj_get_obj_set)
qed

text \<open>
  Three lines: one delimited, one without a delimiter (split at its white space), one
  with two commas and spaces around them.
\<close>

theorem C7_delimited_line_in_any_text_witness:
  "splitOn [0xA] (js ''A:1'' @ [0xA] @ js ''foo bar'' @ [0xA] @ js ''C ,, 3'')
     = [js ''A:1'', js ''foo bar''] @ js ''C ,, 3'' # []
   \<and> delimitedLine (js ''C ,, 3'')
   \<and> parseLines (js ''A:1'' @ [0xA] @ js ''foo bar'' @ [0xA] @ js ''C ,, 3'')
       = [(js ''A'', js ''1''), (js ''foo'', js ''bar''), (js ''C'', js ''3'')]"
proof -
  let ?text = "js ''A:1'' @ [0xA] @ js ''foo bar'' @ [0xA] @ js ''C ,, 3''"
  have h1: "splitOn [0xA] ?text = [js ''A:1'', js ''foo bar''] @ js ''C ,, 3'' # []"
    by (simp add: parse_eval)
  have h2: "delimitedLine (js ''C ,, 3'')"
    by (simp add: delimitedLine_def parse_eval)
  have "foldl parseLine
          (obj_set (lineKey (js ''C ,, 3'')) (lineValue (js ''C ,, 3''))
             (foldl parseLine [] [js ''A:1'', js ''foo bar''])) []
        = [(js ''A'', js ''1''), (js ''foo'', js ''bar''), (js ''C'', js ''3'')]"
    by (simp add: lineKey_def lineValue_def parse_eval)
  with C7_delimited_line_in_any_text [OF h1 h2] h1 h2 show ?thesis by simp
qed

text \<open>
  Claim C7 as stated fails where a second delimiter follows the first: for the line
  \<open>A,,1\<close> the remainder after the first comma is \<open>,1\<close>, and the parser's value is \<open>1\<close>.
\<close>

theorem C7_counterexample_delimiter_run:
  "parseLines (js ''A,,1'') = [(js ''A'', js ''1'')]
   \<and> splitAtFirstDelimiter (js ''A,,1'') = (js ''A'', js '',1'')"
  by (simp add: parse_eval splitAtFirstDelimiter_def)

lemma map_fst_obj_update:
  "map fst (obj_update k v ob) =
     (if k \<in> set (map fst ob) then map fst ob else map fst ob @ [k])"
  by (induction ob) (force split: if_splits)+

lemma keys_obj_update: "fst ` set (obj_update k v ob) = insert k (fst ` set ob)"
proof -
  have "set (map fst (obj_update k v ob)) = insert k (set (map fst ob))"
    unfolding map_fst_obj_update by auto
  then show ?thesis by simp
qed

lemma keys_obj_set: "fst ` set (obj_set k v ob) \<subseteq> insert k (fst ` set ob)"
  by (auto simp: obj_set_def keys_obj_update)

lemma parseWordRow_no_empty_key:
  "[] \<notin> fst ` set (fst st) \<Longrightarrow> [] \<notin> fst ` set (fst (parseWordRow st cells))"
proof (cases cells)
  case Nil
  assume "[] \<notin> fst ` set (fst st)"
  with Nil show ?thesis by (simp add: parseWordRow_def)
next
  case (Cons c0 rest)
  assume st: "[] \<notin> fst ` set (fst st)"
  show ?thesis
  proof (cases "trim c0 = []")
    case True
    with Cons st show ?thesis by (simp add: parseWordRow_def)
  next
    case False
    define v where "v = (case rest of [] \<Rightarrow> [] | c1 # x \<Rightarrow> trim c1)"
    have "fst (parseWordRow st cells) = obj_set (trim c0) v (fst st)"
      using Cons False by (simp add: parseWordRow_def v_def)
    moreover have "[] \<notin> insert (trim c0) (fst ` set (fst st))"
      using False st by auto
    ultimately show ?thesis using keys_obj_set [of "trim c0" v "fst st"] by auto
  qed
qed

lemma parseWordRows_no_empty_key: "[] \<notin> fst ` set (fst (parseWordRows rows))"
proof -
  have "[] \<notin> fst ` set (fst st) \<Longrightarrow> [] \<notin> fst ` set (fst (foldl parseWordRow st rows))" for st
    by (induction rows arbitrary: st) (simp_all add: parseWordRow_no_empty_key)
  then show ?thesis by (simp add: parseWordRows_def)
qed

lemma trim_Nil_iff: "trim s = [] \<longleftrightarrow> list_all isWhiteSpace s"
proof
  assume "trim s = []"
  then have "dropWhile isWhiteSpace (rev (dropWhile isWhiteSpace s)) = []"
    by (simp add: trim_def)
  then have all: "\<forall>x\<in>set (dropWhile isWhiteSpace s). isWhiteSpace x"
    by (simp add: dropWhile_eq_Nil_conv)
  have "dropWhile isWhiteSpace s = []"
  proof (rule ccontr)
    assume ne: "dropWhile isWhiteSpace s \<noteq> []"
    then have "\<not> isWhiteSpace (hd (dropWhile isWhiteSpace s))" by (rule hd_dropWhile)
    moreover from ne have "hd (dropWhile isWhiteSpace s) \<in> set (dropWhile isWhiteSpace s)"
      by simp
    ultimately show False using all by blast
  qed
  then show "list_all isWhiteSpace s" by (simp add: dropWhile_eq_Nil_conv list_all_iff)
next
  assume "list_all isWhiteSpace s"
  then have d: "dropWhile isWhiteSpace s = []" by (simp add: dropWhile_eq_Nil_conv list_all_iff)
  show "trim s = []" unfolding trim_def d by simp
qed

lemma trim_hd_not_white:
  assumes "trim line \<noteq> []"
  shows "\<not> isWhiteSpace (hd (trim line))"
  using trim_ends [of line] assms by blast

lemma matchFrom_take:
  "matchFrom s n = Some (g1, g2) \<Longrightarrow> \<exists>m. 0 < m \<and> g1 = take m s"
  by (induction n) (auto simp: matchRest_def Let_def split: option.splits if_splits)

lemma take_trim_nonblank:
  assumes "s \<noteq> []" and "\<not> isWhiteSpace (hd s)" and "0 < m"
  shows "trim (take m s) \<noteq> []"
proof -
  from assms have "hd s \<in> set (take m s)" by (cases s; cases m) auto
  with assms(2) have "\<not> list_all isWhiteSpace (take m s)" by (auto simp: list_all_iff)
  then show ?thesis by (simp add: trim_Nil_iff)
qed

lemma splitWhiteSpace_first_part:
  assumes "\<not> isWhiteSpace c"
  shows "\<exists>part parts. splitWhiteSpace (c # cs) = (c # part) # parts"
  using assms by (cases "splitWhiteSpace cs") auto

lemma parseLine_key:
  "fst ` set (parseLine data line) \<subseteq> fst ` set data \<union> {k. k \<noteq> []}"
proof (cases "trim line = []")
  case True
  then show ?thesis by (simp add: parseLine_def)
next
  case False
  then obtain c cs where tl: "trim line = c # cs" by (cases "trim line") auto
  with False have nw: "\<not> isWhiteSpace c" using trim_hd_not_white [of line] by simp
  show ?thesis
  proof (cases "matchKeyValue (trim line)")
    case (Some g)
    obtain g1 g2 where g: "g = (g1, g2)" by (cases g)
    with Some have "matchFrom (trim line) (length (takeWhile isKeyChar (trim line))) = Some (g1, g2)"
      by (simp add: matchKeyValue_def)
    from matchFrom_take [OF this] obtain m where m: "0 < m" "g1 = take m (trim line)"
      by blast
    with False nw tl have "trim g1 \<noteq> []" using take_trim_nonblank [of "trim line" m] by simp
    moreover have "parseLine data line = obj_set (trim g1) (trim g2) data"
      using False Some g by (simp add: parseLine_def)
    ultimately show ?thesis using keys_obj_set [of "trim g1" "trim g2" data] by auto
  next
    case None
    from splitWhiteSpace_first_part [OF nw, of cs] obtain part parts
      where sp: "splitWhiteSpace (trim line) = (c # part) # parts" using tl by auto
    show ?thesis
    proof (cases parts)
      case Nil
      with sp None False have "parseLine data line = obj_set (trim line) [] data"
        by (simp add: parseLine_def)
      with False show ?thesis using keys_obj_set [of "trim line" "[]" data] by auto
    next
      case (Cons p1 ps)
      with sp None False have
        "parseLine data line = obj_set (c # part) (joinWith [0x20] (p1 # ps)) data"
        by (simp add: parseLine_def)
      then show ?thesis using keys_obj_set [of "c # part" "joinWith [0x20] (p1 # ps)" data] by auto
    qed
  qed
qed

lemma parseLines_no_empty_key: "[] \<notin> fst ` set (parseLines text)"
proof -
  have "[] \<notin> fst ` set data \<Longrightarrow> [] \<notin> fst ` set (foldl parseLine data ls)" for data ls
  proof (induction ls arbitrary: data)
    case Nil
    then show ?case by simp
  next
    case (Cons l ls)
    from Cons.prems parseLine_key [of data l] have "[] \<notin> fst ` set (parseLine data l)"
      by auto
    with Cons.IH show ?case by simp
  qed
  then show ?thesis by (simp add: parseLines_def)
qed

text \<open>
  Claim C4. No entry of a Flat Mapping has an empty key; a spreadsheet row whose column 0
  is null, empty or white space only is dropped. The line fallback of the text parser and
  the word-processor table loop keep the invariant (\<open>parseLines_no_empty_key\<close>,
  \<open>parseWordRows_no_empty_key\<close>: both test the trimmed text), and the spreadsheet parser
  drops a row whose column 0 is \<open>null\<close>; but it tests column 0 before it is turned into
  a string and trimmed, so a row whose column 0 is a space, or the empty string, is
  inserted under the key \<open>""\<close>.
\<close>

theorem C4_spreadsheet_row_with_blank_key_kept:
  "parseSheet [[Str (js '' ''), Str (js ''x'')]] = [([], js ''x'')]
   \<and> obj_keys (parseSheet [[Str (js ''A''), Str (js ''1'')], [Str [], Str (js ''2'')]])
       = [js ''A'', []]
   \<and> parseSheet [[Null, Str (js ''x'')]] = []
   \<and> fst (parseWordRows [[js '' '', js ''x'']]) = []"
  by (simp add: parseSheet_def parseSheetRow_def cellAt_def parseWordRows_def parseWordRow_def
      parse_eval obj_keys_def)

section \<open>Properties of the enrichment lookup\<close>

lemma scanFiles_stops_at_exception:
  assumes "list_all (\<lambda>fm. scanFile env deviceId fm = Inr None) before"
    and "scanFile env deviceId bad = Inl e"
  shows "scanFiles env deviceId (before @ bad # after) = Inl e"
  using assms by (induction before) simp_all


lemma length_obj_entries: "length (obj_entries ob) = length ob"
proof -
  have "length (filter (\<lambda>e. isArrayIndex (fst e)) ob) + length (filter (\<lambda>e. \<not> isArrayIndex (fst e)) ob)
          = length ob"
    by (rule sum_length_filter_compl)
  then show ?thesis by (simp add: obj_entries_def)
qed

lemma length_toPairs: "length (toPairs uuid data) = length data"
  by (simp add: toPairs_def length_obj_entries)


lemma deviceIdOf_nonempty: "deviceIdOf data \<noteq> [] \<Longrightarrow> data \<noteq> []"
  by (auto simp: deviceIdOf_def obj_keys_def obj_entries_def)

text \<open>
  Claim C2, as amended. When reading or parsing a device-info document throws before any
  earlier document has matched, the scan ends there: the exception is logged as a warning,
  the lookup returns nothing, and no later document is scanned, whatever it holds. The
  failure is not surfaced to the user: \<open>processData\<close> loads the mapping without
  enrichment and leaves the session idle with the \<open>Loaded\<close> message.
\<close>

theorem C2_exception_ends_the_scan:
  assumes "getAllMetadata env = Inr metas"
    and "filter fm_isDeviceInfo metas = before @ bad # after"
    and "list_all (\<lambda>fm. scanFile env deviceId fm = Inr None) before"
    and "scanFile env deviceId bad = Inl e"
  shows "searchDeviceInStorage env deviceId
           = ([ConsoleWarn (js ''Error searching device info'') e], None)
         \<and> (deviceIdOf data = deviceId \<and> deviceId \<noteq> [] \<longrightarrow>
              processData env uuid data s =
                s\<lparr>console := console s @ [ConsoleWarn (js ''Error searching device info'') e],
                  keyValuePairs := toPairs uuid (map (\<lambda>(k, v). (k, Str v)) data),
                  mergeStatus := Idle,
                  mergeMessage := js ''Loaded '' @ showNat (length data) @ js '' identifiers.''\<rparr>)"
proof -
  have search: "searchDeviceInStorage env deviceId
           = ([ConsoleWarn (js ''Error searching device info'') e], None)"
    using assms scanFiles_stops_at_exception [OF assms(3) assms(4), of after]
    by (simp add: searchDeviceInStorage_def)
  have "processData env uuid data s =
                s\<lparr>console := console s @ [ConsoleWarn (js ''Error searching device info'') e],
                  keyValuePairs := toPairs uuid (map (\<lambda>(k, v). (k, Str v)) data),
                  mergeStatus := Idle,
                  mergeMessage := js ''Loaded '' @ showNat (length data) @ js '' identifiers.''\<rparr>"
    if d: "deviceIdOf data = deviceId" and ne: "deviceId \<noteq> []"
  proof -
    from d ne have "data \<noteq> []" using deviceIdOf_nonempty by blast
    then have "toPairs uuid (map (\<lambda>(k, v). (k, Str v)) data) \<noteq> []"
      using length_toPairs [of uuid "map (\<lambda>(k, v). (k, Str v)) data"] by auto
    then show ?thesis
      using d ne search by (simp add: processData_def Let_def length_toPairs)
  qed
  with search show ?thesis by blast
qed


lemmas lookup_eval =
  scanFile_def findKey_def rowValue_def obj_keys_def obj_entries_def obj_get_def
  isArrayIndex_def isDigit_def toLowerCase_def isAscii_def ascii_lower_def
  label_deviceId_def label_deviceName_def label_model_def label_manufacturer_def
  js_def endsWith_def trim_def isWhiteSpace_def
  device_row_def devices_file_def broken_file_def meta_devices_def meta_broken_def
  example_getFile_def broken_first_storage_def devices_first_storage_def example_details_def

lemma findInSheet_device_row:
  "findInSheet (js ''D100'') [device_row] = Some example_details"
  by (simp add: lookup_eval)

text \<open>The unreadable spreadsheet comes first in the store.\<close>

theorem C2_exception_ends_the_scan_witness:
  "getAllMetadata broken_first_storage = Inr [meta_broken, meta_devices]
   \<and> filter fm_isDeviceInfo [meta_broken, meta_devices] = [] @ meta_broken # [meta_devices]
   \<and> scanFile broken_first_storage (js ''D100'') meta_broken = Inl Failure
   \<and> searchDeviceInStorage broken_first_storage (js ''D100'')
       = ([ConsoleWarn (js ''Error searching device info'') Failure], None)"
proof -
  have h1: "getAllMetadata broken_first_storage = Inr [meta_broken, meta_devices]"
    by (simp add: broken_first_storage_def)
  have h2: "filter fm_isDeviceInfo [meta_broken, meta_devices] = [] @ meta_broken # [meta_devices]"
    by (simp add: meta_broken_def meta_devices_def)
  have h3: "list_all (\<lambda>fm. scanFile broken_first_storage (js ''D100'') fm = Inr None) []"
    by simp
  have h4: "scanFile broken_first_storage (js ''D100'') meta_broken = Inl Failure"
    by (simp add: lookup_eval)
  from C2_exception_ends_the_scan [OF h1 h2 h3 h4] h1 h2 h4 show ?thesis by blast
qed

text \<open>
  Claim C2 as stated fails: the first document throws, the second holds the matching row,
  and the lookup returns nothing.
\<close>

theorem C2_counterexample_later_match_not_found:
  "getAllMetadata broken_first_storage = Inr [meta_broken, meta_devices]
   \<and> scanFile broken_first_storage (js ''D100'') meta_broken = Inl Failure
   \<and> scanFile broken_first_storage (js ''D100'') meta_devices = Inr (Some example_details)
   \<and> snd (searchDeviceInStorage broken_first_storage (js ''D100'')) = None"
  by (simp add: searchDeviceInStorage_def findInSheet_device_row [unfolded example_details_def] lookup_eval)












end
